theory Spec2Isabelle
  imports Complex_Main "HOL-Library.Multiset"
begin

section \<open>The Claus breast-cancer risk model (risk\_models/claus/claus.py)\<close>

text \<open>
  The module computes a conditional lifetime risk from the patient's age and the onset
  ages of her relatives by table lookup and linear interpolation.  The seven tables
  live in \<^verbatim>\<open>claus_tables.py\<close>, which is not part of the sources at hand; they are a
  parameter of the model (the record \<open>claus_tables\<close> below).

  Numbers: the tables hold Python floats.  The model computes with exact rationals, so
  every statement below is about the arithmetic the code writes down, not about the
  binary rounding of each floating-point operation.
\<close>

subsection \<open>Python values, exceptions and subscripting\<close>

datatype py_error = IndexError | TypeError | ZeroDivisionError

text \<open>A table is a nested Python list whose leaves are numbers.\<close>

datatype pyval = Num rat | Lst "pyval list"

text \<open>
  \<^verbatim>\<open>v[i]\<close>: a number cannot be subscripted, \<^verbatim>\<open>None\<close> is not an index, an index
  \<open>i\<close> with \<open>-len \<le> i < len\<close> selects an element (a negative one counts from the end),
  any other index raises \<^verbatim>\<open>IndexError\<close>.
\<close>

fun subscript :: "pyval \<Rightarrow> int option \<Rightarrow> py_error + pyval" where
  "subscript (Num x) idx = Inl TypeError"
| "subscript (Lst xs) None = Inl TypeError"
| "subscript (Lst xs) (Some i) =
     (if i < - int (length xs) \<or> int (length xs) \<le> i then Inl IndexError
      else if i < 0 then Inr (xs ! nat (i + int (length xs)))
      else Inr (xs ! nat i))"

subsection \<open>Rounding\<close>

text \<open>
  \<^verbatim>\<open>round(x, n)\<close> on an exact number: the nearest multiple of \<open>10\<^sup>-\<^sup>n\<close>, a tie going to
  the even neighbour (Python 3).
\<close>

definition round_half_even :: "rat \<Rightarrow> int" where
  "round_half_even y =
     (let f = \<lfloor>y\<rfloor>; d = y - of_int f
      in if d < 1 / 2 then f
         else if 1 / 2 < d then f + 1
         else if even f then f else f + 1)"

definition py_round :: "rat \<Rightarrow> nat \<Rightarrow> rat" where
  "py_round x n = of_int (round_half_even (x * 10 ^ n)) / 10 ^ n"

subsection \<open>The helpers of the module\<close>

definition VALID_MIN_AGE :: int where
  "VALID_MIN_AGE = 20"

definition VALID_MAX_AGE :: int where
  "VALID_MAX_AGE = 79"

text \<open>\<^verbatim>\<open>sorted([age for age in ages if VALID_MAX_AGE >= age >= VALID_MIN_AGE])\<close>\<close>

definition sort_ages :: "int list \<Rightarrow> int list" where
  "sort_ages ages = sort (filter (\<lambda>age. VALID_MAX_AGE \<ge> age \<and> age \<ge> VALID_MIN_AGE) ages)"

text \<open>\<^verbatim>\<open>None if not age else (age - 20) // 10\<close>; \<open>div\<close> on \<open>int\<close> floors, as \<^verbatim>\<open>//\<close> does.\<close>

definition bin_age_to_index :: "int \<Rightarrow> int option" where
  "bin_age_to_index age = (if age = 0 then None else Some ((age - 20) div 10))"

definition lookup_claus_table :: "pyval \<Rightarrow> int \<Rightarrow> int option \<Rightarrow> int option \<Rightarrow> py_error + pyval" where
  "lookup_claus_table table patient_index relative1_index relative2_index =
     (case subscript table (Some patient_index) of
        Inl e \<Rightarrow> Inl e
      | Inr row \<Rightarrow>
          (case subscript row relative1_index of
             Inl e \<Rightarrow> Inl e
           | Inr cell \<Rightarrow>
               if relative2_index \<noteq> None then subscript cell relative2_index else Inr cell))"

text \<open>
  \<^verbatim>\<open>current_age_risk += (upper - current_age_risk) * over_bin / 10\<close>; the operands must be
  numbers, a list operand raises \<^verbatim>\<open>TypeError\<close>.
\<close>

fun interpolate :: "pyval \<Rightarrow> pyval \<Rightarrow> int \<Rightarrow> py_error + pyval" where
  "interpolate (Num current_age_risk) (Num upper) over_bin =
     Inr (Num (current_age_risk + (upper - current_age_risk) * of_int over_bin / 10))"
| "interpolate current_age_risk upper over_bin = Inl TypeError"

text \<open>
  \<^verbatim>\<open>round((lifetime_risk - current_age_risk) / (1 - current_age_risk), 3)\<close>; dividing by
  zero raises in Python, where HOL would return 0.
\<close>

fun conditional_risk :: "pyval \<Rightarrow> pyval \<Rightarrow> py_error + rat" where
  "conditional_risk (Num lifetime_risk) (Num current_age_risk) =
     (if 1 - current_age_risk = 0 then Inl ZeroDivisionError
      else Inr (py_round ((lifetime_risk - current_age_risk) / (1 - current_age_risk)) 3))"
| "conditional_risk lifetime_risk current_age_risk = Inl TypeError"

definition get_lifetime_risk :: "pyval \<Rightarrow> int \<Rightarrow> int option \<Rightarrow> int option \<Rightarrow> py_error + rat" where
  "get_lifetime_risk table patient_age relative1_index relative2_index =
     (case lookup_claus_table table (- 1) relative1_index relative2_index of
        Inl e \<Rightarrow> Inl e
      | Inr lifetime_risk \<Rightarrow>
          (let patient_age_lower_bin_index = (patient_age - 29) div 10;
               patient_age_over_bin = (patient_age - 29) mod 10
           in case lookup_claus_table table patient_age_lower_bin_index
                     relative1_index relative2_index of
                Inl e \<Rightarrow> Inl e
              | Inr current_age_risk \<Rightarrow>
                  (case (if patient_age_over_bin \<noteq> 0
                         then (case lookup_claus_table table (patient_age_lower_bin_index + 1)
                                      relative1_index relative2_index of
                                 Inl e \<Rightarrow> Inl e
                               | Inr patient_age_upper_bin_risk \<Rightarrow>
                                   interpolate current_age_risk patient_age_upper_bin_risk
                                     patient_age_over_bin)
                         else Inr current_age_risk) of
                     Inl e \<Rightarrow> Inl e
                   | Inr current_age_risk' \<Rightarrow>
                       conditional_risk lifetime_risk current_age_risk')))"

subsection \<open>The inputs of \<open>calculate_risk\<close>\<close>

text \<open>
  The mother's onset age is a single integer or absent (\<open>None\<close> stands for the falsy
  default); the other eight arguments are lists of integers.
\<close>

record relatives =
  mother_onset_age :: "int option"
  daughter_onset_ages :: "int list"
  full_sister_onset_ages :: "int list"
  maternal_aunt_onset_ages :: "int list"
  paternal_aunt_onset_ages :: "int list"
  maternal_grandmother_onset_ages :: "int list"
  paternal_grandmother_onset_ages :: "int list"
  maternal_half_sister_onset_ages :: "int list"
  paternal_half_sister_onset_ages :: "int list"

text \<open>The seven tables imported from \<^verbatim>\<open>claus_tables\<close>, taken as a parameter.\<close>

record claus_tables =
  ONE_FIRST_DEG_TABLE :: pyval
  ONE_SECOND_DEG_TABLE :: pyval
  TWO_FIRST_DEG_TABLE :: pyval
  MOTHER_MATERNAL_AUNT :: pyval
  MOTHER_PATERNAL_AUNT :: pyval
  TWO_SEC_DEG_DIFF_SIDE_TABLE :: pyval
  TWO_SEC_DEG_SAME_SIDE_TABLE :: pyval

text \<open>Truthiness of the mother's age: absent and 0 are falsy.\<close>

fun truthy :: "int option \<Rightarrow> bool" where
  "truthy None = False"
| "truthy (Some a) = (a \<noteq> 0)"

text \<open>\<^verbatim>\<open>[mother_onset_age] if mother_onset_age else []\<close>\<close>

fun mother_list :: "int option \<Rightarrow> int list" where
  "mother_list None = []"
| "mother_list (Some a) = (if a \<noteq> 0 then [a] else [])"

definition first_degree_ages :: "relatives \<Rightarrow> int list" where
  "first_degree_ages r =
     sort_ages (filter (\<lambda>x. x \<noteq> 0)
       (mother_list (mother_onset_age r) @
        full_sister_onset_ages r @
        daughter_onset_ages r))"

definition second_degree_ages :: "relatives \<Rightarrow> int list" where
  "second_degree_ages r =
     sort_ages (filter (\<lambda>x. x \<noteq> 0)
       (maternal_aunt_onset_ages r @
        paternal_aunt_onset_ages r @
        maternal_grandmother_onset_ages r @
        paternal_grandmother_onset_ages r @
        maternal_half_sister_onset_ages r @
        paternal_half_sister_onset_ages r))"

definition maternal_second_degree_ages :: "relatives \<Rightarrow> int list" where
  "maternal_second_degree_ages r =
     sort_ages (filter (\<lambda>x. x \<noteq> 0)
       (maternal_aunt_onset_ages r @
        maternal_grandmother_onset_ages r @
        maternal_half_sister_onset_ages r))"

definition paternal_second_degree_ages :: "relatives \<Rightarrow> int list" where
  "paternal_second_degree_ages r =
     sort_ages (filter (\<lambda>x. x \<noteq> 0)
       (paternal_aunt_onset_ages r @
        paternal_grandmother_onset_ages r @
        paternal_half_sister_onset_ages r))"

subsection \<open>The four steps of \<open>calculate_risk\<close>\<close>

text \<open>
  Each \<^verbatim>\<open>for ages, table in (...)\<close> loop is a recursion over the list of pairs that
  threads the running \<open>risk\<close>; an exception of a lookup ends the call.
\<close>

fun one_relative_loop :: "int \<Rightarrow> (int list \<times> pyval) list \<Rightarrow> rat \<Rightarrow> py_error + rat" where
  "one_relative_loop patient_age [] risk = Inr risk"
| "one_relative_loop patient_age ((ages, table) # rest) risk =
     (if ages \<noteq> [] then
        (case get_lifetime_risk table patient_age (bin_age_to_index (ages ! 0)) None of
           Inl e \<Rightarrow> Inl e
         | Inr v \<Rightarrow> one_relative_loop patient_age rest (max risk v))
      else one_relative_loop patient_age rest risk)"

fun mother_aunt_loop :: "int \<Rightarrow> int \<Rightarrow> (int list \<times> pyval) list \<Rightarrow> rat \<Rightarrow> py_error + rat" where
  "mother_aunt_loop patient_age mother [] risk = Inr risk"
| "mother_aunt_loop patient_age mother ((ages, table) # rest) risk =
     (let ages = sort_ages ages
      in if ages \<noteq> [] then
           (case get_lifetime_risk table patient_age
                   (bin_age_to_index mother) (bin_age_to_index (ages ! 0)) of
              Inl e \<Rightarrow> Inl e
            | Inr v \<Rightarrow> mother_aunt_loop patient_age mother rest (max risk v))
         else mother_aunt_loop patient_age mother rest risk)"

fun two_relatives_loop :: "int \<Rightarrow> (int list \<times> pyval) list \<Rightarrow> rat \<Rightarrow> py_error + rat" where
  "two_relatives_loop patient_age [] risk = Inr risk"
| "two_relatives_loop patient_age ((ages, table) # rest) risk =
     (if length ages > 1 then
        (case get_lifetime_risk table patient_age
                (bin_age_to_index (ages ! 0)) (bin_age_to_index (ages ! 1)) of
           Inl e \<Rightarrow> Inl e
         | Inr v \<Rightarrow> two_relatives_loop patient_age rest (max risk v))
      else two_relatives_loop patient_age rest risk)"

definition opposite_sides_step :: "claus_tables \<Rightarrow> int \<Rightarrow> relatives \<Rightarrow> rat \<Rightarrow> py_error + rat" where
  "opposite_sides_step T patient_age r risk =
     (if maternal_second_degree_ages r \<noteq> [] \<and> paternal_second_degree_ages r \<noteq> [] then
        (case get_lifetime_risk (TWO_SEC_DEG_DIFF_SIDE_TABLE T) patient_age
                (bin_age_to_index (maternal_second_degree_ages r ! 0))
                (bin_age_to_index (paternal_second_degree_ages r ! 0)) of
           Inl e \<Rightarrow> Inl e
         | Inr v \<Rightarrow> Inr (max risk v))
      else Inr risk)"

text \<open>
  The mother-and-aunt step runs only for a truthy mother's age; \<open>the\<close> is applied to
  \<open>Some\<close> only.
\<close>

definition mother_aunt_step :: "claus_tables \<Rightarrow> int \<Rightarrow> relatives \<Rightarrow> rat \<Rightarrow> py_error + rat" where
  "mother_aunt_step T patient_age r risk =
     (if truthy (mother_onset_age r) then
        mother_aunt_loop patient_age (the (mother_onset_age r))
          [(maternal_aunt_onset_ages r, MOTHER_MATERNAL_AUNT T),
           (paternal_aunt_onset_ages r, MOTHER_PATERNAL_AUNT T)] risk
      else Inr risk)"

text \<open>
  The whole function.  The first test is the source's
  \<^verbatim>\<open>if VALID_MAX_AGE < patient_age < VALID_MIN_AGE: return None\<close>.
\<close>

definition calculate_risk :: "claus_tables \<Rightarrow> int \<Rightarrow> relatives \<Rightarrow> py_error + rat option" where
  "calculate_risk T patient_age r =
     (if VALID_MAX_AGE < patient_age \<and> patient_age < VALID_MIN_AGE then Inr None
      else
        (case one_relative_loop patient_age
                [(first_degree_ages r, ONE_FIRST_DEG_TABLE T),
                 (second_degree_ages r, ONE_SECOND_DEG_TABLE T)] 0 of
           Inl e \<Rightarrow> Inl e
         | Inr risk1 \<Rightarrow>
        (case mother_aunt_step T patient_age r risk1 of
           Inl e \<Rightarrow> Inl e
         | Inr risk2 \<Rightarrow>
        (case two_relatives_loop patient_age
                [(first_degree_ages r, TWO_FIRST_DEG_TABLE T),
                 (maternal_second_degree_ages r, TWO_SEC_DEG_SAME_SIDE_TABLE T),
                 (paternal_second_degree_ages r, TWO_SEC_DEG_SAME_SIDE_TABLE T)] risk2 of
           Inl e \<Rightarrow> Inl e
         | Inr risk3 \<Rightarrow>
        (case opposite_sides_step T patient_age r risk3 of
           Inl e \<Rightarrow> Inl e
         | Inr risk \<Rightarrow> Inr (if risk > 0 then Some risk else None))))))"

subsection \<open>Illustrative tables\<close>

text \<open>
  Tables of the documented shape, used to run the model on concrete inputs: six patient
  rows (ages 29, 39, ..., 79, the last one being the lifetime row that index \<open>-1\<close>
  selects) and six onset-age bins per relative.  The numbers are made up (they grow with
  the patient's age and shrink with the relative's onset age); they are not the numbers
  of \<^verbatim>\<open>claus_tables.py\<close>.
\<close>

definition sample2 :: "nat \<Rightarrow> pyval" where
  "sample2 b =
     Lst (map (\<lambda>p. Lst (map (\<lambda>r. Num (of_nat ((p + 1) * (b - r)) / 1000)) [0..<6])) [0..<6])"

definition sample3 :: "nat \<Rightarrow> pyval" where
  "sample3 b =
     Lst (map (\<lambda>p. Lst (map (\<lambda>r. Lst (map (\<lambda>s.
            Num (of_nat ((p + 1) * (b - r - s)) / 1000)) [0..<6])) [0..<6])) [0..<6])"

definition sample_tables :: claus_tables where
  "sample_tables =
     \<lparr> ONE_FIRST_DEG_TABLE = sample2 30,
       ONE_SECOND_DEG_TABLE = sample2 20,
       TWO_FIRST_DEG_TABLE = sample3 60,
       MOTHER_MATERNAL_AUNT = sample3 50,
       MOTHER_PATERNAL_AUNT = sample3 45,
       TWO_SEC_DEG_DIFF_SIDE_TABLE = sample3 35,
       TWO_SEC_DEG_SAME_SIDE_TABLE = sample3 40 \<rparr>"

definition no_relatives :: relatives where
  "no_relatives =
     \<lparr> mother_onset_age = None,
       daughter_onset_ages = [],
       full_sister_onset_ages = [],
       maternal_aunt_onset_ages = [],
       paternal_aunt_onset_ages = [],
       maternal_grandmother_onset_ages = [],
       paternal_grandmother_onset_ages = [],
       maternal_half_sister_onset_ages = [],
       paternal_half_sister_onset_ages = [] \<rparr>"

subsection \<open>Auxiliary notions used in the statements\<close>

text \<open>The ages of a list that lie in the valid range, as a set.\<close>

definition valid_ages :: "int list \<Rightarrow> int set" where
  "valid_ages ages = {a \<in> set ages. VALID_MIN_AGE \<le> a \<and> a \<le> VALID_MAX_AGE}"

text \<open>
  The mother-and-aunt loop as the specification words it: the aunts' ages are the raw
  list, sorted ascending, with no range filter (\<open>sort\<close> where the code calls
  \<open>sort_ages\<close>).  It is compared with \<open>mother_aunt_loop\<close>, the loop of the source.
\<close>

fun mother_aunt_loop_unfiltered ::
    "int \<Rightarrow> int \<Rightarrow> (int list \<times> pyval) list \<Rightarrow> rat \<Rightarrow> py_error + rat" where
  "mother_aunt_loop_unfiltered patient_age mother [] risk = Inr risk"
| "mother_aunt_loop_unfiltered patient_age mother ((ages, table) # rest) risk =
     (let ages = sort ages
      in if ages \<noteq> [] then
           (case get_lifetime_risk table patient_age
                   (bin_age_to_index mother) (bin_age_to_index (ages ! 0)) of
              Inl e \<Rightarrow> Inl e
            | Inr v \<Rightarrow> mother_aunt_loop_unfiltered patient_age mother rest (max risk v))
         else mother_aunt_loop_unfiltered patient_age mother rest risk)"

text \<open>
  The lookups that the steps of \<open>calculate_risk\<close> make, in the order of the source: a
  table and the one or two bin indices of the relatives.  A step that does not apply
  (an empty list, fewer than two ages, a falsy mother's age) contributes nothing.
\<close>

type_synonym lookup = "pyval \<times> int option \<times> int option"

fun one_relative_lookups :: "(int list \<times> pyval) list \<Rightarrow> lookup list" where
  "one_relative_lookups [] = []"
| "one_relative_lookups ((ages, table) # rest) =
     (if ages \<noteq> [] then [(table, bin_age_to_index (ages ! 0), None)] else [])
       @ one_relative_lookups rest"

fun mother_aunt_lookups :: "int \<Rightarrow> (int list \<times> pyval) list \<Rightarrow> lookup list" where
  "mother_aunt_lookups mother [] = []"
| "mother_aunt_lookups mother ((ages, table) # rest) =
     (if sort_ages ages \<noteq> []
      then [(table, bin_age_to_index mother, bin_age_to_index (sort_ages ages ! 0))] else [])
       @ mother_aunt_lookups mother rest"

fun two_relatives_lookups :: "(int list \<times> pyval) list \<Rightarrow> lookup list" where
  "two_relatives_lookups [] = []"
| "two_relatives_lookups ((ages, table) # rest) =
     (if length ages > 1
      then [(table, bin_age_to_index (ages ! 0), bin_age_to_index (ages ! 1))] else [])
       @ two_relatives_lookups rest"

definition applicable_lookups :: "claus_tables \<Rightarrow> relatives \<Rightarrow> lookup list" where
  "applicable_lookups T r =
     one_relative_lookups
       [(first_degree_ages r, ONE_FIRST_DEG_TABLE T),
        (second_degree_ages r, ONE_SECOND_DEG_TABLE T)]
     @ (if truthy (mother_onset_age r)
        then mother_aunt_lookups (the (mother_onset_age r))
               [(maternal_aunt_onset_ages r, MOTHER_MATERNAL_AUNT T),
                (paternal_aunt_onset_ages r, MOTHER_PATERNAL_AUNT T)]
        else [])
     @ two_relatives_lookups
         [(first_degree_ages r, TWO_FIRST_DEG_TABLE T),
          (maternal_second_degree_ages r, TWO_SEC_DEG_SAME_SIDE_TABLE T),
          (paternal_second_degree_ages r, TWO_SEC_DEG_SAME_SIDE_TABLE T)]
     @ (if maternal_second_degree_ages r \<noteq> [] \<and> paternal_second_degree_ages r \<noteq> []
        then [(TWO_SEC_DEG_DIFF_SIDE_TABLE T,
               bin_age_to_index (maternal_second_degree_ages r ! 0),
               bin_age_to_index (paternal_second_degree_ages r ! 0))]
        else [])"

text \<open>The candidate risk of one lookup, and the candidates of a call.\<close>

fun lookup_risk :: "int \<Rightarrow> lookup \<Rightarrow> py_error + rat" where
  "lookup_risk patient_age (table, i1, i2) = get_lifetime_risk table patient_age i1 i2"

definition candidate_risks :: "claus_tables \<Rightarrow> int \<Rightarrow> relatives \<Rightarrow> (py_error + rat) list" where
  "candidate_risks T patient_age r = map (lookup_risk patient_age) (applicable_lookups T r)"

text \<open>The values of a list of results, or the first exception in it.\<close>

fun collect :: "(py_error + 'a) list \<Rightarrow> py_error + 'a list" where
  "collect [] = Inr []"
| "collect (Inl e # xs) = Inl e"
| "collect (Inr v # xs) = (case collect xs of Inl e \<Rightarrow> Inl e | Inr vs \<Rightarrow> Inr (v # vs))"

text \<open>Running a list of lookups from a given \<open>risk\<close>: the maximum so far, or the first exception.\<close>

fun run_lookups :: "int \<Rightarrow> lookup list \<Rightarrow> rat \<Rightarrow> py_error + rat" where
  "run_lookups patient_age [] risk = Inr risk"
| "run_lookups patient_age (l # ls) risk =
     (case lookup_risk patient_age l of
        Inl e \<Rightarrow> Inl e
      | Inr v \<Rightarrow> run_lookups patient_age ls (max risk v))"

text \<open>
  The precondition of the range property: the cells that \<open>get_lifetime_risk\<close> reads for a
  lookup hold probabilities, and the interpolated \<open>current_age_risk\<close> is below 1.  A
  lookup that raises reads no cell.
\<close>

fun unit_cell :: "py_error + pyval \<Rightarrow> bool" where
  "unit_cell (Inr (Num x)) = (0 \<le> x \<and> x \<le> 1)"
| "unit_cell (Inr (Lst xs)) = False"
| "unit_cell (Inl e) = True"

fun below_one :: "py_error + pyval \<Rightarrow> py_error + pyval \<Rightarrow> int \<Rightarrow> bool" where
  "below_one (Inr (Num c)) upper over_bin =
     (if over_bin = 0 then c < 1
      else (case upper of
              Inr (Num u) \<Rightarrow> c + (u - c) * of_int over_bin / 10 < 1
            | other \<Rightarrow> True))"
| "below_one current upper over_bin = True"

fun probability_cells :: "int \<Rightarrow> lookup \<Rightarrow> bool" where
  "probability_cells patient_age (table, i1, i2) =
     (unit_cell (lookup_claus_table table (- 1) i1 i2) \<and>
      unit_cell (lookup_claus_table table ((patient_age - 29) div 10) i1 i2) \<and>
      ((patient_age - 29) mod 10 = 0 \<or>
       unit_cell (lookup_claus_table table ((patient_age - 29) div 10 + 1) i1 i2)) \<and>
      below_one (lookup_claus_table table ((patient_age - 29) div 10) i1 i2)
                (lookup_claus_table table ((patient_age - 29) div 10 + 1) i1 i2)
                ((patient_age - 29) mod 10))"

text \<open>
  Relations between two inputs, used to state invariance: the same relatives listed in
  another order; the same youngest ages (the values the steps index the tables with);
  and an input with the out-of-range ages removed from its eight lists.
\<close>

definition in_valid_range :: "int \<Rightarrow> bool" where
  "in_valid_range age = (VALID_MAX_AGE \<ge> age \<and> age \<ge> VALID_MIN_AGE)"

definition permuted :: "relatives \<Rightarrow> relatives \<Rightarrow> bool" where
  "permuted r r' =
     (mother_onset_age r = mother_onset_age r' \<and>
      mset (daughter_onset_ages r) = mset (daughter_onset_ages r') \<and>
      mset (full_sister_onset_ages r) = mset (full_sister_onset_ages r') \<and>
      mset (maternal_aunt_onset_ages r) = mset (maternal_aunt_onset_ages r') \<and>
      mset (paternal_aunt_onset_ages r) = mset (paternal_aunt_onset_ages r') \<and>
      mset (maternal_grandmother_onset_ages r) = mset (maternal_grandmother_onset_ages r') \<and>
      mset (paternal_grandmother_onset_ages r) = mset (paternal_grandmother_onset_ages r') \<and>
      mset (maternal_half_sister_onset_ages r) = mset (maternal_half_sister_onset_ages r') \<and>
      mset (paternal_half_sister_onset_ages r) = mset (paternal_half_sister_onset_ages r'))"

definition same_youngest :: "relatives \<Rightarrow> relatives \<Rightarrow> bool" where
  "same_youngest r r' =
     (mother_onset_age r = mother_onset_age r' \<and>
      take 2 (first_degree_ages r) = take 2 (first_degree_ages r') \<and>
      take 1 (second_degree_ages r) = take 1 (second_degree_ages r') \<and>
      take 2 (maternal_second_degree_ages r) = take 2 (maternal_second_degree_ages r') \<and>
      take 2 (paternal_second_degree_ages r) = take 2 (paternal_second_degree_ages r') \<and>
      take 1 (sort_ages (maternal_aunt_onset_ages r))
        = take 1 (sort_ages (maternal_aunt_onset_ages r')) \<and>
      take 1 (sort_ages (paternal_aunt_onset_ages r))
        = take 1 (sort_ages (paternal_aunt_onset_ages r')))"

definition drop_invalid_ages :: "relatives \<Rightarrow> relatives" where
  "drop_invalid_ages r =
     r\<lparr> daughter_onset_ages := filter in_valid_range (daughter_onset_ages r),
        full_sister_onset_ages := filter in_valid_range (full_sister_onset_ages r),
        maternal_aunt_onset_ages := filter in_valid_range (maternal_aunt_onset_ages r),
        paternal_aunt_onset_ages := filter in_valid_range (paternal_aunt_onset_ages r),
        maternal_grandmother_onset_ages :=
          filter in_valid_range (maternal_grandmother_onset_ages r),
        paternal_grandmother_onset_ages :=
          filter in_valid_range (paternal_grandmother_onset_ages r),
        maternal_half_sister_onset_ages :=
          filter in_valid_range (maternal_half_sister_onset_ages r),
        paternal_half_sister_onset_ages :=
          filter in_valid_range (paternal_half_sister_onset_ages r) \<rparr>"

text \<open>
  Adding one relative: a new onset age in one of the eight lists, or a mother's age where
  none was given.
\<close>

datatype category =
    Mother | Daughter | FullSister | MaternalAunt | PaternalAunt
  | MaternalGrandmother | PaternalGrandmother | MaternalHalfSister | PaternalHalfSister

fun add_relative :: "category \<Rightarrow> int \<Rightarrow> relatives \<Rightarrow> relatives" where
  "add_relative Mother x r = r\<lparr>mother_onset_age := Some x\<rparr>"
| "add_relative Daughter x r = r\<lparr>daughter_onset_ages := x # daughter_onset_ages r\<rparr>"
| "add_relative FullSister x r = r\<lparr>full_sister_onset_ages := x # full_sister_onset_ages r\<rparr>"
| "add_relative MaternalAunt x r =
     r\<lparr>maternal_aunt_onset_ages := x # maternal_aunt_onset_ages r\<rparr>"
| "add_relative PaternalAunt x r =
     r\<lparr>paternal_aunt_onset_ages := x # paternal_aunt_onset_ages r\<rparr>"
| "add_relative MaternalGrandmother x r =
     r\<lparr>maternal_grandmother_onset_ages := x # maternal_grandmother_onset_ages r\<rparr>"
| "add_relative PaternalGrandmother x r =
     r\<lparr>paternal_grandmother_onset_ages := x # paternal_grandmother_onset_ages r\<rparr>"
| "add_relative MaternalHalfSister x r =
     r\<lparr>maternal_half_sister_onset_ages := x # maternal_half_sister_onset_ages r\<rparr>"
| "add_relative PaternalHalfSister x r =
     r\<lparr>paternal_half_sister_onset_ages := x # paternal_half_sister_onset_ages r\<rparr>"

text \<open>A mother's age can be added when none (or a falsy one) was given.\<close>

definition can_add :: "category \<Rightarrow> relatives \<Rightarrow> bool" where
  "can_add c r = (c \<noteq> Mother \<or> \<not> truthy (mother_onset_age r))"

text \<open>The mother's age, when given and truthy, lies in the valid range.\<close>

fun mother_ok :: "int option \<Rightarrow> bool" where
  "mother_ok None = True"
| "mother_ok (Some m) = (m = 0 \<or> in_valid_range m)"

text \<open>
  One result is at most another: both calls return, and the second risk is not smaller
  (\<open>risk_le\<close> for the candidates, \<open>result_le\<close> for results, where "no result" is below
  every risk).
\<close>

fun risk_le :: "py_error + rat \<Rightarrow> py_error + rat \<Rightarrow> bool" where
  "risk_le (Inr v) (Inr w) = (v \<le> w)"
| "risk_le p q = False"

fun result_le :: "py_error + rat option \<Rightarrow> py_error + rat option \<Rightarrow> bool" where
  "result_le (Inr None) (Inr w) = True"
| "result_le (Inr (Some v)) (Inr (Some w)) = (v \<le> w)"
| "result_le p q = False"

text \<open>
  What monotonicity needs of the tables, for a given patient's age: over the six onset
  bins the conditional risk of every table is defined and does not grow with a
  relative's bin.
\<close>

definition antitone1 :: "pyval \<Rightarrow> int \<Rightarrow> bool" where
  "antitone1 table patient_age =
     (\<forall>i \<in> {0..5}. \<forall>i' \<in> {0..5}. i \<le> i' \<longrightarrow>
        risk_le (get_lifetime_risk table patient_age (Some i') None)
                (get_lifetime_risk table patient_age (Some i) None))"

definition antitone2 :: "pyval \<Rightarrow> int \<Rightarrow> bool" where
  "antitone2 table patient_age =
     (\<forall>i \<in> {0..5}. \<forall>i' \<in> {0..5}. \<forall>j \<in> {0..5}. \<forall>j' \<in> {0..5}. i \<le> i' \<longrightarrow> j \<le> j' \<longrightarrow>
        risk_le (get_lifetime_risk table patient_age (Some i') (Some j'))
                (get_lifetime_risk table patient_age (Some i) (Some j)))"

definition tables_antitone :: "claus_tables \<Rightarrow> int \<Rightarrow> bool" where
  "tables_antitone T patient_age =
     (antitone1 (ONE_FIRST_DEG_TABLE T) patient_age \<and>
      antitone1 (ONE_SECOND_DEG_TABLE T) patient_age \<and>
      antitone2 (TWO_FIRST_DEG_TABLE T) patient_age \<and>
      antitone2 (MOTHER_MATERNAL_AUNT T) patient_age \<and>
      antitone2 (MOTHER_PATERNAL_AUNT T) patient_age \<and>
      antitone2 (TWO_SEC_DEG_DIFF_SIDE_TABLE T) patient_age \<and>
      antitone2 (TWO_SEC_DEG_SAME_SIDE_TABLE T) patient_age)"

text \<open>
  Tables of the documented shape whose numbers grow with the relative's onset age (cells
  in \<open>[0, 1]\<close>, as the specification asks, but not antitone).
\<close>

definition rising2 :: "nat \<Rightarrow> pyval" where
  "rising2 b =
     Lst (map (\<lambda>p. Lst (map (\<lambda>r. Num (of_nat ((p + 1) * (b + r)) / 1000)) [0..<6])) [0..<6])"

definition rising3 :: "nat \<Rightarrow> pyval" where
  "rising3 b =
     Lst (map (\<lambda>p. Lst (map (\<lambda>r. Lst (map (\<lambda>s.
            Num (of_nat ((p + 1) * (b + r + s)) / 1000)) [0..<6])) [0..<6])) [0..<6])"

definition rising_tables :: claus_tables where
  "rising_tables =
     \<lparr> ONE_FIRST_DEG_TABLE = rising2 30,
       ONE_SECOND_DEG_TABLE = rising2 20,
       TWO_FIRST_DEG_TABLE = rising3 5,
       MOTHER_MATERNAL_AUNT = rising3 5,
       MOTHER_PATERNAL_AUNT = rising3 5,
       TWO_SEC_DEG_DIFF_SIDE_TABLE = rising3 5,
       TWO_SEC_DEG_SAME_SIDE_TABLE = rising3 5 \<rparr>"

text \<open>
  Two auxiliary relations for the monotonicity proof: a sorted list of valid ages whose
  first (and second) entry is not older than that of another, and a list of lookups each
  of which is matched by a lookup of another list with at least its risk.
\<close>

definition younger :: "int list \<Rightarrow> int list \<Rightarrow> bool" where
  "younger ys xs =
     ((\<forall>a \<in> set ys. in_valid_range a) \<and> (\<forall>a \<in> set xs. in_valid_range a) \<and>
      (xs \<noteq> [] \<longrightarrow> ys \<noteq> [] \<and> ys ! 0 \<le> xs ! 0) \<and>
      (1 < length xs \<longrightarrow> 1 < length ys \<and> ys ! 1 \<le> xs ! 1))"

definition dominated :: "int \<Rightarrow> lookup list \<Rightarrow> lookup list \<Rightarrow> bool" where
  "dominated patient_age ls ls' =
     (\<forall>l \<in> set ls. \<exists>l' \<in> set ls'.
        risk_le (lookup_risk patient_age l) (lookup_risk patient_age l'))"

section \<open>Properties\<close>

subsection \<open>Rounding a quotient of integers\<close>

text \<open>
  Rounding \<open>a / b\<close> to an integer is decided by the remainder of the integer division;
  this is how the concrete runs below evaluate \<open>py_round\<close>.
\<close>

lemma round_half_even_quotient:
  assumes "0 < b"
  shows "round_half_even (of_int a / of_int b) =
     (if 2 * (a mod b) < b then a div b
      else if b < 2 * (a mod b) then a div b + 1
      else if even (a div b) then a div b else a div b + 1)"
proof -
  have fl: "\<lfloor>(of_int a / of_int b :: rat)\<rfloor> = a div b"
    by (rule floor_divide_of_int_eq)
  have "(of_int a :: rat) = of_int (a div b) * of_int b + of_int (a mod b)"
    by (metis div_mult_mod_eq of_int_add of_int_mult)
  then have d: "(of_int a / of_int b :: rat) - of_int (a div b) = of_int (a mod b) / of_int b"
    using assms by (simp add: field_simps)
  have lt: "(of_int (a mod b) / of_int b :: rat) < 1 / 2 \<longleftrightarrow> 2 * (a mod b) < b"
  proof -
    have "(of_int (a mod b) / of_int b :: rat) < 1 / 2
            \<longleftrightarrow> (of_int (2 * (a mod b)) :: rat) < of_int b"
      using assms by (simp add: field_simps)
    then show ?thesis by (simp only: of_int_less_iff)
  qed
  have gt: "(1 / 2 :: rat) < of_int (a mod b) / of_int b \<longleftrightarrow> b < 2 * (a mod b)"
  proof -
    have "(1 / 2 :: rat) < of_int (a mod b) / of_int b
            \<longleftrightarrow> (of_int b :: rat) < of_int (2 * (a mod b))"
      using assms by (simp add: field_simps)
    then show ?thesis by (simp only: of_int_less_iff)
  qed
  show ?thesis
    unfolding round_half_even_def Let_def fl d lt gt by simp
qed

lemma py_round3_quotient:
  assumes "0 < b"
  shows "py_round (of_int a / of_int b) 3 =
     of_int (if 2 * ((a * 1000) mod b) < b then (a * 1000) div b
      else if b < 2 * ((a * 1000) mod b) then (a * 1000) div b + 1
      else if even ((a * 1000) div b) then (a * 1000) div b else (a * 1000) div b + 1) / 1000"
proof -
  have "(of_int a / of_int b :: rat) * 10 ^ 3 = of_int (a * 1000) / of_int b"
    by simp
  then show ?thesis
    unfolding py_round_def using round_half_even_quotient [OF assms, of "a * 1000"] by simp
qed

subsection \<open>The interpolation routine\<close>

text \<open>
  Claim C2.  \<open>get_lifetime_risk\<close> reads \<open>lifetime_risk\<close> at row \<open>-1\<close>, splits
  \<open>patient_age - 29\<close> by \<open>divmod 10\<close> into a row and a remainder, reads the base value
  at that row and, when the remainder is not zero, moves it towards the value of the next
  row by \<open>remainder / 10\<close> of their difference; it returns
  \<open>round((lifetime_risk - current_age_risk) / (1 - current_age_risk), 3)\<close>.  That
  Python expression raises \<^verbatim>\<open>ZeroDivisionError\<close> when \<open>current_age_risk\<close> is 1, which
  the statement records.  The cells read are assumed to exist and to be numbers.
\<close>

theorem get_lifetime_risk_formula:
  assumes "lookup_claus_table table (- 1) i1 i2 = Inr (Num lifetime_risk)"
    and "lookup_claus_table table ((patient_age - 29) div 10) i1 i2 = Inr (Num base)"
    and "(patient_age - 29) mod 10 \<noteq> 0 \<Longrightarrow>
           lookup_claus_table table ((patient_age - 29) div 10 + 1) i1 i2 = Inr (Num upper)"
    and "current_age_risk =
           (if (patient_age - 29) mod 10 \<noteq> 0
            then base + (upper - base) * of_int ((patient_age - 29) mod 10) / 10
            else base)"
  shows "get_lifetime_risk table patient_age i1 i2 =
           (if 1 - current_age_risk = 0 then Inl ZeroDivisionError
            else Inr (py_round ((lifetime_risk - current_age_risk) / (1 - current_age_risk)) 3))"
  using assms by (simp add: get_lifetime_risk_def Let_def)

theorem get_lifetime_risk_formula_witness:
  "lookup_claus_table (sample2 30) (- 1) (Some 2) None = Inr (Num (168 / 1000)) \<and>
   lookup_claus_table (sample2 30) ((40 - 29) div 10) (Some 2) None = Inr (Num (56 / 1000)) \<and>
   lookup_claus_table (sample2 30) ((40 - 29) div 10 + 1) (Some 2) None = Inr (Num (84 / 1000)) \<and>
   get_lifetime_risk (sample2 30) 40 (Some 2) None = Inr (116 / 1000)"
proof -
  have l: "lookup_claus_table (sample2 30) (- 1) (Some 2) None = Inr (Num (168 / 1000))"
    by (simp add: lookup_claus_table_def sample2_def)
  have b: "lookup_claus_table (sample2 30) ((40 - 29) div 10) (Some 2) None
             = Inr (Num (56 / 1000))"
    by (simp add: lookup_claus_table_def sample2_def)
  have u: "lookup_claus_table (sample2 30) ((40 - 29) div 10 + 1) (Some 2) None
             = Inr (Num (84 / 1000))"
    by (simp add: lookup_claus_table_def sample2_def)
  have "get_lifetime_risk (sample2 30) 40 (Some 2) None = Inr (116 / 1000)"
    using get_lifetime_risk_formula [OF l b u refl] py_round3_quotient [of 2353 273]
    by simp
  with l b u show ?thesis by simp
qed

text \<open>
  Claim C10.  For a patient aged 20 to 28, \<open>divmod(patient_age - 29, 10)\<close> is
  \<open>(-1, patient_age - 19)\<close>: the lower row is row \<open>-1\<close>, the lifetime row itself, and the
  remainder is not zero, so the base value is the lifetime value, moved towards row 0.
\<close>

theorem young_patient_reads_lifetime_row:
  assumes "20 \<le> patient_age" and "patient_age \<le> 28"
  shows "(patient_age - 29) div 10 = - 1 \<and> (patient_age - 29) mod 10 = patient_age - 19 \<and>
     (patient_age - 29) mod 10 \<noteq> 0 \<and>
     get_lifetime_risk table patient_age i1 i2 =
       (case lookup_claus_table table (- 1) i1 i2 of
          Inl e \<Rightarrow> Inl e
        | Inr lifetime_risk \<Rightarrow>
            (case lookup_claus_table table 0 i1 i2 of
               Inl e \<Rightarrow> Inl e
             | Inr row0 \<Rightarrow>
                 (case interpolate lifetime_risk row0 (patient_age - 19) of
                    Inl e \<Rightarrow> Inl e
                  | Inr c \<Rightarrow> conditional_risk lifetime_risk c)))"
proof -
  have q: "(patient_age - 29) div 10 = - 1"
    using assms by presburger
  have m: "(patient_age - 29) mod 10 = patient_age - 19"
    using assms by presburger
  show ?thesis using assms
    by (simp add: get_lifetime_risk_def Let_def q m split: sum.splits)
qed

theorem young_patient_reads_lifetime_row_witness:
  "(20::int) \<le> 25 \<and> (25::int) \<le> 28 \<and> (25 - 29) div 10 = (- 1 :: int) \<and>
   lookup_claus_table (sample2 30) (- 1) (Some 2) None = Inr (Num (168 / 1000)) \<and>
   lookup_claus_table (sample2 30) 0 (Some 2) None = Inr (Num (28 / 1000)) \<and>
   get_lifetime_risk (sample2 30) 25 (Some 2) None = Inr (92 / 1000)"
proof -
  have l: "lookup_claus_table (sample2 30) (- 1) (Some 2) None = Inr (Num (168 / 1000))"
    by (simp add: lookup_claus_table_def sample2_def)
  have z: "lookup_claus_table (sample2 30) 0 (Some 2) None = Inr (Num (28 / 1000))"
    by (simp add: lookup_claus_table_def sample2_def)
  have "get_lifetime_risk (sample2 30) 25 (Some 2) None = Inr (92 / 1000)"
    using young_patient_reads_lifetime_row [of 25 "sample2 30" "Some 2" None]
      py_round3_quotient [of 229 21]
    by (simp add: l z)
  with l z show ?thesis by simp
qed

subsection \<open>Running the model on the illustrative tables\<close>

lemmas structure_defs = calculate_risk_def mother_aunt_step_def opposite_sides_step_def
  first_degree_ages_def second_degree_ages_def maternal_second_degree_ages_def
  paternal_second_degree_ages_def sort_ages_def VALID_MAX_AGE_def VALID_MIN_AGE_def
  bin_age_to_index_def no_relatives_def

lemma sample_tables_simps:
  "ONE_FIRST_DEG_TABLE sample_tables = sample2 30"
  "ONE_SECOND_DEG_TABLE sample_tables = sample2 20"
  "TWO_FIRST_DEG_TABLE sample_tables = sample3 60"
  "MOTHER_MATERNAL_AUNT sample_tables = sample3 50"
  "MOTHER_PATERNAL_AUNT sample_tables = sample3 45"
  "TWO_SEC_DEG_DIFF_SIDE_TABLE sample_tables = sample3 35"
  "TWO_SEC_DEG_SAME_SIDE_TABLE sample_tables = sample3 40"
  by (simp_all add: sample_tables_def)

lemmas lookup_defs = get_lifetime_risk_def lookup_claus_table_def sample2_def sample3_def

subsection \<open>The patient's age\<close>

text \<open>
  Claim C1 says that a patient's age outside 20..79 gives "no result".  The test
  \<^verbatim>\<open>VALID_MAX_AGE < patient_age < VALID_MIN_AGE\<close> asks for an age above 79 and below 20 at
  once, so it never holds and the function goes on to the lookups.  With a patient aged
  10 and a mother diagnosed at 45 the rows read are \<open>-2\<close> and \<open>-1\<close>, and a risk is
  returned.
\<close>

theorem patient_age_guard_never_fires:
  "\<not> (VALID_MAX_AGE < patient_age \<and> patient_age < VALID_MIN_AGE) \<and>
   calculate_risk sample_tables 10 (no_relatives\<lparr>mother_onset_age := Some 45\<rparr>)
     = Inr (Some (29 / 1000))"
proof -
  have g: "get_lifetime_risk (sample2 30) 10 (Some 2) None = Inr (29 / 1000)"
    using py_round3_quotient [of 2143 63] by (simp add: lookup_defs)
  show ?thesis
    by (simp add: structure_defs sample_tables_simps g)
qed

subsection \<open>The mother-and-aunt step\<close>

text \<open>
  Claim C9.  The mother's age reaches \<open>bin_age_to_index\<close> as it was supplied.  With a
  mother diagnosed at 85 and a maternal aunt at 45 (patient aged 50) the mother is dropped
  from the first-degree list, the aunt passes the range filter, the one-second-degree
  lookup succeeds, and the mother-and-maternal-aunt table is then subscripted with the
  mother's bin 6, beyond its six bins: the call ends in \<^verbatim>\<open>IndexError\<close>.
\<close>

theorem mother_bin_out_of_range_reachable:
  "bin_age_to_index 85 = Some 6 \<and>
   sort_ages [45] = [45] \<and>
   first_degree_ages
     (no_relatives\<lparr>mother_onset_age := Some 85, maternal_aunt_onset_ages := [45]\<rparr>) = [] \<and>
   second_degree_ages
     (no_relatives\<lparr>mother_onset_age := Some 85, maternal_aunt_onset_ages := [45]\<rparr>) = [45] \<and>
   get_lifetime_risk (MOTHER_MATERNAL_AUNT sample_tables) 50
     (bin_age_to_index 85) (bin_age_to_index 45) = Inl IndexError \<and>
   mother_aunt_step sample_tables 50
     (no_relatives\<lparr>mother_onset_age := Some 85, maternal_aunt_onset_ages := [45]\<rparr>) (55 / 1000)
     = Inl IndexError \<and>
   calculate_risk sample_tables 50
     (no_relatives\<lparr>mother_onset_age := Some 85, maternal_aunt_onset_ages := [45]\<rparr>)
     = Inl IndexError"
proof -
  have g1: "get_lifetime_risk (sample2 20) 50 (Some 2) None = Inr (55 / 1000)"
    using py_round3_quotient [of 4721 261] by (simp add: lookup_defs)
  have g2: "get_lifetime_risk (sample3 50) 50 (Some 6) (Some 2) = Inl IndexError"
    by (simp add: lookup_defs)
  show ?thesis
    by (simp add: structure_defs sample_tables_simps g1 g2)
qed

text \<open>
  Claim C4 as stated: the aunts' ages are the raw list, sorted, not range-filtered.  The
  source passes them through \<open>sort_ages\<close>, which filters.  With the aunts \<open>[15, 35]\<close> the
  code bins the aunt of 35 (bin 1), the unfiltered reading bins the one of 15 (bin
  \<open>-1\<close>, the last column); with the single aunt \<open>[15]\<close> the code skips the step.
\<close>

theorem aunt_ages_raw_counterexample:
  "mother_aunt_loop 50 40 [([15, 35], sample3 50)] 0 = Inr (160 / 1000) \<and>
   mother_aunt_loop_unfiltered 50 40 [([15, 35], sample3 50)] 0 = Inr (144 / 1000) \<and>
   mother_aunt_loop 50 40 [([15], sample3 50)] 0 = Inr 0 \<and>
   mother_aunt_loop_unfiltered 50 40 [([15], sample3 50)] 0 = Inr (144 / 1000)"
proof -
  have g1: "get_lifetime_risk (sample3 50) 50 (Some 2) (Some 1) = Inr (160 / 1000)"
    using py_round3_quotient [of 8543 1363] by (simp add: lookup_defs)
  have g2: "get_lifetime_risk (sample3 50) 50 (Some 2) (Some (- 1)) = Inr (144 / 1000)"
    using py_round3_quotient [of 8667 1247] by (simp add: lookup_defs)
  show ?thesis
    using g1 g2
    by (simp add: sort_ages_def VALID_MAX_AGE_def VALID_MIN_AGE_def bin_age_to_index_def)
qed

lemma sort_nth0_Min:
  fixes xs :: "int list"
  assumes "xs \<noteq> []"
  shows "sort xs ! 0 = Min (set xs)"
proof -
  have "sort xs \<noteq> []"
    using assms by (metis length_sort length_0_conv)
  then obtain y ys where s: "sort xs = y # ys"
    by (cases "sort xs") auto
  have "sorted (y # ys)" using s sorted_sort [of xs] by simp
  then have le: "\<forall>z \<in> set (y # ys). y \<le> z" by auto
  have st: "set (y # ys) = set xs" using s set_sort [of "\<lambda>x. x" xs] by metis
  have "Min (set xs) = y"
  proof (rule Min_eqI)
    show "finite (set xs)" by simp
    show "\<And>z. z \<in> set xs \<Longrightarrow> y \<le> z" using le st by blast
    show "y \<in> set xs" using st by auto
  qed
  then show ?thesis using s by simp
qed

lemma set_sort_ages: "set (sort_ages ages) = valid_ages ages"
  by (auto simp: sort_ages_def valid_ages_def)

lemma sort_ages_nth0:
  assumes "valid_ages ages \<noteq> {}"
  shows "sort_ages ages ! 0 = Min (valid_ages ages)"
proof -
  let ?f = "filter (\<lambda>age. VALID_MAX_AGE \<ge> age \<and> age \<ge> VALID_MIN_AGE) ages"
  have st: "set ?f = valid_ages ages" by (auto simp: valid_ages_def)
  have ne: "?f \<noteq> []" using st assms by (metis set_empty)
  show ?thesis
    using sort_nth0_Min [OF ne] st by (simp add: sort_ages_def)
qed

text \<open>
  Claim C4 as amended: one round of the mother-and-aunt loop is skipped when no aunt's age
  lies in 20..79, and otherwise indexes the table by the mother's bin and the bin of the
  youngest aunt among those whose age lies in 20..79.
\<close>

theorem mother_aunt_uses_youngest_valid_aunt:
  "mother_aunt_loop patient_age mother ((ages, table) # rest) risk =
     (if valid_ages ages = {} then mother_aunt_loop patient_age mother rest risk
      else (case get_lifetime_risk table patient_age (bin_age_to_index mother)
                   (bin_age_to_index (Min (valid_ages ages))) of
              Inl e \<Rightarrow> Inl e
            | Inr v \<Rightarrow> mother_aunt_loop patient_age mother rest (max risk v)))"
proof (cases "valid_ages ages = {}")
  case True
  then have "sort_ages ages = []" using set_sort_ages [of ages] by simp
  then show ?thesis using True by simp
next
  case False
  then have "sort_ages ages \<noteq> []" using set_sort_ages [of ages] by auto
  then show ?thesis using False sort_ages_nth0 [OF False] by (simp add: Let_def)
qed

theorem mother_aunt_uses_youngest_valid_aunt_witness:
  "valid_ages [15, 35] = {35} \<and>
   mother_aunt_loop 50 40 [([15, 35], sample3 50)] 0 = Inr (160 / 1000)"
proof -
  have v: "valid_ages [15, 35] = {35}"
    by (auto simp: valid_ages_def VALID_MAX_AGE_def VALID_MIN_AGE_def)
  have g1: "get_lifetime_risk (sample3 50) 50 (Some 2) (Some 1) = Inr (160 / 1000)"
    using py_round3_quotient [of 8543 1363] by (simp add: lookup_defs)
  show ?thesis
    using mother_aunt_uses_youngest_valid_aunt [of 50 40 "[15, 35]" "sample3 50" "[]" 0] v g1
    by (simp add: bin_age_to_index_def)
qed

subsection \<open>The steps of \<open>calculate_risk\<close> as a list of lookups\<close>

text \<open>
  Each loop of the source makes the lookups listed by the corresponding function, in the
  same order, keeps the maximum and stops at the first exception.
\<close>

lemma run_lookups_append:
  "run_lookups a (xs @ ys) risk =
     (case run_lookups a xs risk of Inl e \<Rightarrow> Inl e | Inr risk' \<Rightarrow> run_lookups a ys risk')"
  by (induction xs arbitrary: risk) (auto split: sum.splits)

lemma one_relative_loop_run:
  "one_relative_loop a ps risk = run_lookups a (one_relative_lookups ps) risk"
  by (induction a ps risk rule: one_relative_loop.induct) (auto split: sum.splits)

lemma mother_aunt_loop_run:
  "mother_aunt_loop a m ps risk = run_lookups a (mother_aunt_lookups m ps) risk"
  by (induction a m ps risk rule: mother_aunt_loop.induct) (auto simp: Let_def split: sum.splits)

lemma two_relatives_loop_run:
  "two_relatives_loop a ps risk = run_lookups a (two_relatives_lookups ps) risk"
  by (induction a ps risk rule: two_relatives_loop.induct) (auto split: sum.splits)

lemma guard_never: "\<not> (VALID_MAX_AGE < a \<and> a < VALID_MIN_AGE)"
  by (simp add: VALID_MAX_AGE_def VALID_MIN_AGE_def)

lemma seq4:
  "(case A of Inl e \<Rightarrow> Inl e | Inr r1 \<Rightarrow>
      (case B r1 of Inl e \<Rightarrow> Inl e | Inr r2 \<Rightarrow>
        (case C r2 of Inl e \<Rightarrow> Inl e | Inr r3 \<Rightarrow>
          (case D r3 of Inl e \<Rightarrow> Inl e | Inr r \<Rightarrow> F r))))
   = (case (case A of Inl e \<Rightarrow> Inl e | Inr r1 \<Rightarrow>
        (case B r1 of Inl e \<Rightarrow> Inl e | Inr r2 \<Rightarrow>
          (case C r2 of Inl e \<Rightarrow> Inl e | Inr r3 \<Rightarrow> D r3))) of
        Inl e \<Rightarrow> Inl e | Inr r \<Rightarrow> F r)"
  by (simp split: sum.splits)

lemma mother_aunt_step_run:
  "mother_aunt_step T a r risk =
      run_lookups a (if truthy (mother_onset_age r)
        then mother_aunt_lookups (the (mother_onset_age r))
               [(maternal_aunt_onset_ages r, MOTHER_MATERNAL_AUNT T),
                (paternal_aunt_onset_ages r, MOTHER_PATERNAL_AUNT T)]
        else []) risk"
  by (cases "truthy (mother_onset_age r)") (simp_all add: mother_aunt_step_def mother_aunt_loop_run)

lemma opposite_sides_step_run:
  "opposite_sides_step T a r risk =
      run_lookups a (if maternal_second_degree_ages r \<noteq> [] \<and> paternal_second_degree_ages r \<noteq> []
        then [(TWO_SEC_DEG_DIFF_SIDE_TABLE T,
               bin_age_to_index (maternal_second_degree_ages r ! 0),
               bin_age_to_index (paternal_second_degree_ages r ! 0))]
        else []) risk"
  by (auto simp: opposite_sides_step_def split: sum.splits)

lemma calculate_risk_run:
  "calculate_risk T a r =
     (case run_lookups a (applicable_lookups T r) 0 of
        Inl e \<Rightarrow> Inl e
      | Inr risk \<Rightarrow> Inr (if risk > 0 then Some risk else None))"
  unfolding calculate_risk_def applicable_lookups_def run_lookups_append
    one_relative_loop_run two_relatives_loop_run mother_aunt_step_run opposite_sides_step_run
  by (simp only: guard_never if_False seq4)

lemma run_lookups_collect:
  "run_lookups a ls risk =
     (case collect (map (lookup_risk a) ls) of
        Inl e \<Rightarrow> Inl e
      | Inr vs \<Rightarrow> Inr (foldl max risk vs))"
proof (induction ls arbitrary: risk)
  case Nil
  show ?case by simp
next
  case (Cons l ls)
  show ?case
  proof (cases "lookup_risk a l")
    case (Inl e)
    then show ?thesis by simp
  next
    case (Inr v)
    then show ?thesis using Cons [of "max risk v"] by (simp split: sum.splits)
  qed
qed

lemma foldl_max_Max: "foldl max (x::rat) vs = Max (insert x (set vs))"
proof (induction vs arbitrary: x)
  case Nil
  show ?case by simp
next
  case (Cons v vs)
  have "Max (insert (max x v) (set vs)) = Max (insert x (insert v (set vs)))"
  proof (cases "set vs = {}")
    case True
    then show ?thesis by simp
  next
    case False
    then show ?thesis by (simp add: max.assoc)
  qed
  then show ?case using Cons [of "max x v"] by simp
qed

lemma foldl_max_pos:
  "0 < foldl max (0::rat) vs \<longleftrightarrow> (\<exists>v\<in>set vs. 0 < v)"
proof -
  have "0 < Max (insert 0 (set vs)) \<longleftrightarrow> (\<exists>a\<in>insert 0 (set vs). (0::rat) < a)"
    by (rule Max_gr_iff) simp_all
  then show ?thesis unfolding foldl_max_Max by simp
qed

lemma foldl_max_eq:
  assumes "\<exists>v\<in>set vs. 0 < v"
  shows "foldl max (0::rat) vs = Max (set vs)"
proof -
  from assms obtain v where v: "v \<in> set vs" "0 < v" by blast
  then have ne: "set vs \<noteq> {}" by auto
  have "v \<le> Max (set vs)" using v by simp
  then have "0 \<le> Max (set vs)" using v by linarith
  then show ?thesis unfolding foldl_max_Max using ne by (simp add: max_def)
qed

text \<open>
  Claim C3.  The value returned by \<open>calculate_risk\<close> is the maximum of the candidate
  risks of the applicable steps (single first-degree, single second-degree, mother and
  maternal aunt, mother and paternal aunt, two of the same category and side, two
  second-degree relatives of opposite sides) when one of them is positive, and "no
  result" otherwise.  A lookup that raises ends the call with that exception.
\<close>

theorem calculate_risk_is_max_candidate:
  "calculate_risk T patient_age r =
     (case collect (candidate_risks T patient_age r) of
        Inl e \<Rightarrow> Inl e
      | Inr vs \<Rightarrow> Inr (if \<exists>v\<in>set vs. 0 < v then Some (Max (set vs)) else None))"
proof (cases "collect (candidate_risks T patient_age r)")
  case (Inl e)
  then show ?thesis
    unfolding calculate_risk_run run_lookups_collect candidate_risks_def by simp
next
  case (Inr vs)
  show ?thesis
  proof (cases "\<exists>v\<in>set vs. 0 < v")
    case True
    then show ?thesis
      using Inr foldl_max_pos [of vs] foldl_max_eq [OF True]
      unfolding calculate_risk_run run_lookups_collect candidate_risks_def by simp
  next
    case False
    then show ?thesis
      using Inr foldl_max_pos [of vs]
      unfolding calculate_risk_run run_lookups_collect candidate_risks_def by simp
  qed
qed

theorem calculate_risk_is_max_candidate_witness:
  "candidate_risks sample_tables 60
     (no_relatives\<lparr>maternal_aunt_onset_ages := [50, 30], paternal_aunt_onset_ages := [55]\<rparr>)
     = [Inr (39 / 1000), Inr (80 / 1000), Inr (67 / 1000)] \<and>
   calculate_risk sample_tables 60
     (no_relatives\<lparr>maternal_aunt_onset_ages := [50, 30], paternal_aunt_onset_ages := [55]\<rparr>)
     = Inr (Some (80 / 1000))"
proof -
  let ?r = "no_relatives\<lparr>maternal_aunt_onset_ages := [50, 30], paternal_aunt_onset_ages := [55]\<rparr>"
  have g1: "get_lifetime_risk (sample2 20) 60 (Some 1) None = Inr (39 / 1000)"
    using py_round3_quotient [of 9221 361] by (simp add: lookup_defs)
  have g2: "get_lifetime_risk (sample3 40) 60 (Some 1) (Some 3) = Inr (80 / 1000)"
    using py_round3_quotient [of 2131 171] by (simp add: lookup_defs)
  have g3: "get_lifetime_risk (sample3 35) 60 (Some 1) (Some 3) = Inr (67 / 1000)"
    using py_round3_quotient [of 8729 589] by (simp add: lookup_defs)
  have c: "candidate_risks sample_tables 60 ?r
             = [Inr (39 / 1000), Inr (80 / 1000), Inr (67 / 1000)]"
    by (simp add: candidate_risks_def applicable_lookups_def first_degree_ages_def
        second_degree_ages_def maternal_second_degree_ages_def paternal_second_degree_ages_def
        sort_ages_def VALID_MAX_AGE_def VALID_MIN_AGE_def bin_age_to_index_def no_relatives_def
        sample_tables_simps g1 g2 g3)
  show ?thesis
    using calculate_risk_is_max_candidate [of sample_tables 60 ?r] c by simp
qed

subsection \<open>Range and rounding of the result\<close>

lemma round_half_even_of_int: "round_half_even (of_int k) = k"
  by (simp add: round_half_even_def)

lemma py_round_idem: "py_round (py_round x 3) 3 = py_round x 3"
  by (simp add: py_round_def round_half_even_of_int)

lemma round_half_even_le:
  assumes "y \<le> of_int n"
  shows "round_half_even y \<le> n"
proof -
  have f: "\<lfloor>y\<rfloor> \<le> n" using assms by (simp add: floor_le_iff)
  show ?thesis
  proof (cases "y - of_int \<lfloor>y\<rfloor> < 1 / 2")
    case True
    then show ?thesis using f by (simp add: round_half_even_def)
  next
    case False
    then have "(of_int \<lfloor>y\<rfloor> :: rat) < of_int n" using assms by linarith
    then have "\<lfloor>y\<rfloor> < n" by (simp only: of_int_less_iff)
    then show ?thesis by (simp add: round_half_even_def Let_def)
  qed
qed

lemma py_round_le_one:
  assumes "x \<le> 1"
  shows "py_round x 3 \<le> 1"
proof -
  have "x * 10 ^ 3 \<le> of_int 1000" using assms by simp
  then have "round_half_even (x * 10 ^ 3) \<le> 1000" by (rule round_half_even_le)
  then have "(of_int (round_half_even (x * 10 ^ 3)) :: rat) \<le> of_int 1000"
    by (simp only: of_int_le_iff)
  then show ?thesis by (simp add: py_round_def)
qed

lemma conditional_le_one:
  fixes l c :: rat
  assumes "l \<le> 1" and "c < 1"
  shows "(l - c) / (1 - c) \<le> 1"
  using assms by (simp add: field_simps)

lemma get_lifetime_risk_unit:
  assumes "probability_cells a (t, i, j)" and "get_lifetime_risk t a i j = Inr v"
  shows "v \<le> 1 \<and> py_round v 3 = v"
proof -
  let ?q = "(a - 29) div 10" and ?m = "(a - 29) mod 10"
  from assms(2) obtain L where L: "lookup_claus_table t (- 1) i j = Inr L"
    by (auto simp: get_lifetime_risk_def split: sum.splits)
  from assms(2) L obtain c where c: "lookup_claus_table t ?q i j = Inr c"
    by (auto simp: get_lifetime_risk_def Let_def split: sum.splits)
  show ?thesis
  proof (cases "?m = 0")
    case True
    with assms(2) L c have r: "conditional_risk L c = Inr v"
      by (simp add: get_lifetime_risk_def Let_def)
    then obtain l' c' where n: "L = Num l'" "c = Num c'"
      by (cases L; cases c) auto
    with assms(1) L c True have b: "l' \<le> 1" "c' < 1" by auto
    from r n b have "v = py_round ((l' - c') / (1 - c')) 3"
      by (auto split: if_splits)
    then show ?thesis
      using py_round_le_one [OF conditional_le_one [OF b]] py_round_idem by simp
  next
    case False
    with assms(2) L c obtain u where u: "lookup_claus_table t (?q + 1) i j = Inr u"
      by (auto simp: get_lifetime_risk_def Let_def split: sum.splits)
    with assms(2) L c False obtain c2 where i: "interpolate c u ?m = Inr c2"
        and r: "conditional_risk L c2 = Inr v"
      by (auto simp: get_lifetime_risk_def Let_def split: sum.splits)
    from i obtain c' u' where n1: "c = Num c'" "u = Num u'"
        and c2: "c2 = Num (c' + (u' - c') * of_int ?m / 10)"
      by (cases c; cases u) auto
    from r c2 obtain l' where n2: "L = Num l'"
      by (cases L) auto
    from assms(1) L c u False n1 n2 have b: "l' \<le> 1" "c' + (u' - c') * of_int ?m / 10 < 1"
      by auto
    from r n2 c2 b have "v = py_round ((l' - (c' + (u' - c') * of_int ?m / 10))
                                  / (1 - (c' + (u' - c') * of_int ?m / 10))) 3"
      by (auto split: if_splits)
    then show ?thesis
      using py_round_le_one [OF conditional_le_one [OF b]] py_round_idem by simp
  qed
qed

lemma foldl_max_in: "foldl max (x::rat) vs \<in> insert x (set vs)"
proof (induction vs arbitrary: x)
  case Nil
  show ?case by simp
next
  case (Cons v vs)
  have "max x v = x \<or> max x v = v" by (simp add: max_def)
  then show ?case using Cons [of "max x v"] by auto
qed

lemma collect_Inr_set:
  "collect xs = Inr vs \<Longrightarrow> v \<in> set vs \<Longrightarrow> Inr v \<in> set xs"
proof (induction xs arbitrary: vs)
  case Nil
  then show ?case by simp
next
  case (Cons x xs)
  then show ?case by (cases x) (auto split: sum.splits)
qed

text \<open>
  Claim C8.  When every cell read by an applicable lookup is a probability and the
  interpolated \<open>current_age_risk\<close> is below 1, a risk returned by \<open>calculate_risk\<close> lies
  in \<open>(0, 1]\<close> and is its own rounding to three decimals.
\<close>

theorem risk_in_unit_interval:
  assumes "\<forall>l \<in> set (applicable_lookups T r). probability_cells patient_age l"
    and "calculate_risk T patient_age r = Inr (Some risk)"
  shows "0 < risk \<and> risk \<le> 1 \<and> py_round risk 3 = risk"
proof -
  from assms(2) obtain vs where
      vs: "collect (map (lookup_risk patient_age) (applicable_lookups T r)) = Inr vs"
      and risk: "risk = foldl max 0 vs" and pos: "0 < risk"
    unfolding calculate_risk_run run_lookups_collect
    by (auto split: sum.splits if_splits)
  have "risk \<in> insert 0 (set vs)" unfolding risk by (rule foldl_max_in)
  with pos have "risk \<in> set vs" by auto
  from collect_Inr_set [OF vs this]
  obtain l where l: "l \<in> set (applicable_lookups T r)"
      and lr: "lookup_risk patient_age l = Inr risk"
    by auto
  obtain t i j where tij: "l = (t, i, j)" by (cases l) auto
  from assms(1) l tij have "probability_cells patient_age (t, i, j)" by auto
  from get_lifetime_risk_unit [OF this] lr tij pos show ?thesis by simp
qed

theorem risk_in_unit_interval_witness:
  "applicable_lookups sample_tables
     (no_relatives\<lparr>mother_onset_age := Some 40, maternal_aunt_onset_ages := [35]\<rparr>)
     = [(sample2 30, Some 2, None), (sample2 20, Some 1, None), (sample3 50, Some 2, Some 1)] \<and>
   probability_cells 50 (sample2 30, Some 2, None) \<and>
   probability_cells 50 (sample2 20, Some 1, None) \<and>
   probability_cells 50 (sample3 50, Some 2, Some 1) \<and>
   calculate_risk sample_tables 50
     (no_relatives\<lparr>mother_onset_age := Some 40, maternal_aunt_onset_ages := [35]\<rparr>)
     = Inr (Some (160 / 1000)) \<and>
   (0::rat) < 160 / 1000 \<and> (160 / 1000 :: rat) \<le> 1 \<and> py_round (160 / 1000) 3 = 160 / 1000"
proof -
  let ?r = "no_relatives\<lparr>mother_onset_age := Some 40, maternal_aunt_onset_ages := [35]\<rparr>"
  have a: "applicable_lookups sample_tables ?r =
      [(sample2 30, Some 2, None), (sample2 20, Some 1, None), (sample3 50, Some 2, Some 1)]"
    by (simp add: applicable_lookups_def first_degree_ages_def second_degree_ages_def
        maternal_second_degree_ages_def paternal_second_degree_ages_def sort_ages_def
        VALID_MAX_AGE_def VALID_MIN_AGE_def bin_age_to_index_def no_relatives_def
        sample_tables_simps)
  have p: "\<forall>l \<in> set (applicable_lookups sample_tables ?r). probability_cells 50 l"
    unfolding a by (simp add: lookup_claus_table_def sample2_def sample3_def)
  have g1: "get_lifetime_risk (sample2 30) 50 (Some 2) None = Inr (89 / 1000)"
    using py_round3_quotient [of 2283 203] by (simp add: lookup_defs)
  have g2: "get_lifetime_risk (sample2 20) 50 (Some 1) None = Inr (59 / 1000)"
    using py_round3_quotient [of 9411 551] by (simp add: lookup_defs)
  have g3: "get_lifetime_risk (sample3 50) 50 (Some 2) (Some 1) = Inr (160 / 1000)"
    using py_round3_quotient [of 8543 1363] by (simp add: lookup_defs)
  have c: "calculate_risk sample_tables 50 ?r = Inr (Some (160 / 1000))"
    unfolding calculate_risk_run a by (simp add: g1 g2 g3)
  have q: "probability_cells 50 (sample2 30, Some 2, None) \<and>
           probability_cells 50 (sample2 20, Some 1, None) \<and>
           probability_cells 50 (sample3 50, Some 2, Some 1)"
    using p unfolding a by simp
  show ?thesis
    using risk_in_unit_interval [OF p c] a q c by simp
qed

subsection \<open>Order and range of the ages in the lists\<close>

text \<open>
  The steps see each list only through \<open>sort_ages\<close>, so two inputs that agree on the
  youngest ages of each derived list make the same lookups.
\<close>

lemma in_valid_range_fun:
  "in_valid_range = (\<lambda>age. VALID_MAX_AGE \<ge> age \<and> age \<ge> VALID_MIN_AGE)"
  by (rule ext) (simp add: in_valid_range_def)

lemma sort_ages_in_valid_range: "sort_ages xs = sort (filter in_valid_range xs)"
  unfolding in_valid_range_fun sort_ages_def by (rule refl)

lemma sort_ages_cong_mset:
  assumes "filter_mset in_valid_range (mset xs) = filter_mset in_valid_range (mset ys)"
  shows "sort_ages xs = sort_ages ys"
proof -
  have "mset (sort (filter in_valid_range ys)) = mset (filter in_valid_range xs)"
    using assms by simp
  moreover have "sorted (sort (filter in_valid_range ys))" by simp
  ultimately have "sort (filter in_valid_range xs) = sort (filter in_valid_range ys)"
    by (rule properties_for_sort)
  then show ?thesis by (simp add: sort_ages_in_valid_range)
qed

lemma take_facts:
  assumes "take n xs = take n ys" and "0 < n"
  shows "(xs = []) = (ys = [])" and "xs \<noteq> [] \<Longrightarrow> xs ! 0 = ys ! 0"
proof -
  have l: "min (length xs) n = min (length ys) n"
    using assms(1) by (metis length_take)
  show e: "(xs = []) = (ys = [])" using l assms(2) by (cases xs; cases ys) auto
  show "xs ! 0 = ys ! 0" if "xs \<noteq> []"
  proof -
    have "xs ! 0 = take n xs ! 0" using assms(2) by simp
    also have "\<dots> = take n ys ! 0" using assms(1) by simp
    also have "\<dots> = ys ! 0" using assms(2) by simp
    finally show ?thesis .
  qed
qed

lemma take2_facts:
  assumes "take 2 xs = take 2 ys"
  shows "(1 < length xs) = (1 < length ys)" and "1 < length xs \<Longrightarrow> xs ! 1 = ys ! 1"
proof -
  have l: "min (length xs) 2 = min (length ys) 2"
    using assms by (metis length_take)
  show "(1 < length xs) = (1 < length ys)" using l by (auto simp: min_def split: if_splits)
  show "xs ! 1 = ys ! 1" if "1 < length xs"
  proof -
    have "xs ! 1 = take 2 xs ! 1" by simp
    also have "\<dots> = take 2 ys ! 1" using assms by simp
    also have "\<dots> = ys ! 1" by simp
    finally show ?thesis .
  qed
qed

lemma one_relative_lookups_cong:
  assumes "take 2 a = take 2 a'" and "take 1 b = take 1 b'"
  shows "one_relative_lookups [(a, t), (b, u)] = one_relative_lookups [(a', t), (b', u)]"
  using take_facts [OF assms(1)] take_facts [OF assms(2)] by auto

lemma mother_aunt_lookups_cong:
  assumes "take 1 (sort_ages a) = take 1 (sort_ages a')"
    and "take 1 (sort_ages b) = take 1 (sort_ages b')"
  shows "mother_aunt_lookups m [(a, t), (b, u)] = mother_aunt_lookups m [(a', t), (b', u)]"
  using take_facts [OF assms(1)] take_facts [OF assms(2)] by auto

lemma two_relatives_lookups_cong:
  assumes "take 2 a = take 2 a'" and "take 2 b = take 2 b'" and "take 2 c = take 2 c'"
  shows "two_relatives_lookups [(a, t), (b, u), (c, w)]
           = two_relatives_lookups [(a', t), (b', u), (c', w)]"
  using take_facts [OF assms(1)] take_facts [OF assms(2)] take_facts [OF assms(3)]
    take2_facts [OF assms(1)] take2_facts [OF assms(2)] take2_facts [OF assms(3)]
  by auto

lemma applicable_lookups_same_youngest:
  assumes "same_youngest r r'"
  shows "applicable_lookups T r = applicable_lookups T r'"
proof -
  from assms have m: "mother_onset_age r = mother_onset_age r'"
    and f: "take 2 (first_degree_ages r) = take 2 (first_degree_ages r')"
    and s: "take 1 (second_degree_ages r) = take 1 (second_degree_ages r')"
    and ms: "take 2 (maternal_second_degree_ages r) = take 2 (maternal_second_degree_ages r')"
    and ps: "take 2 (paternal_second_degree_ages r) = take 2 (paternal_second_degree_ages r')"
    and ma: "take 1 (sort_ages (maternal_aunt_onset_ages r))
               = take 1 (sort_ages (maternal_aunt_onset_ages r'))"
    and pa: "take 1 (sort_ages (paternal_aunt_onset_ages r))
               = take 1 (sort_ages (paternal_aunt_onset_ages r'))"
    by (simp_all add: same_youngest_def)
  have o: "(if maternal_second_degree_ages r \<noteq> [] \<and> paternal_second_degree_ages r \<noteq> []
        then [(TWO_SEC_DEG_DIFF_SIDE_TABLE T,
               bin_age_to_index (maternal_second_degree_ages r ! 0),
               bin_age_to_index (paternal_second_degree_ages r ! 0))]
        else []) =
       (if maternal_second_degree_ages r' \<noteq> [] \<and> paternal_second_degree_ages r' \<noteq> []
        then [(TWO_SEC_DEG_DIFF_SIDE_TABLE T,
               bin_age_to_index (maternal_second_degree_ages r' ! 0),
               bin_age_to_index (paternal_second_degree_ages r' ! 0))]
        else [])"
    using take_facts [OF ms] take_facts [OF ps] by auto
  show ?thesis
    unfolding applicable_lookups_def
    by (simp only: m o one_relative_lookups_cong [OF f s]
        mother_aunt_lookups_cong [OF ma pa] two_relatives_lookups_cong [OF f ms ps])
qed


lemma calculate_risk_same_youngest:
  assumes "same_youngest r r'"
  shows "calculate_risk T a r = calculate_risk T a r'"
  unfolding calculate_risk_run applicable_lookups_same_youngest [OF assms] by (rule refl)

lemma permuted_same_youngest:
  assumes "permuted r r'"
  shows "same_youngest r r'"
proof -
  from assms have m: "mother_onset_age r = mother_onset_age r'"
    and e: "mset (daughter_onset_ages r) = mset (daughter_onset_ages r')"
      "mset (full_sister_onset_ages r) = mset (full_sister_onset_ages r')"
      "mset (maternal_aunt_onset_ages r) = mset (maternal_aunt_onset_ages r')"
      "mset (paternal_aunt_onset_ages r) = mset (paternal_aunt_onset_ages r')"
      "mset (maternal_grandmother_onset_ages r) = mset (maternal_grandmother_onset_ages r')"
      "mset (paternal_grandmother_onset_ages r) = mset (paternal_grandmother_onset_ages r')"
      "mset (maternal_half_sister_onset_ages r) = mset (maternal_half_sister_onset_ages r')"
      "mset (paternal_half_sister_onset_ages r) = mset (paternal_half_sister_onset_ages r')"
    by (simp_all add: permuted_def)
  have f: "first_degree_ages r = first_degree_ages r'"
    unfolding first_degree_ages_def by (rule sort_ages_cong_mset) (simp add: m e)
  have s: "second_degree_ages r = second_degree_ages r'"
    unfolding second_degree_ages_def by (rule sort_ages_cong_mset) (simp add: e)
  have ms: "maternal_second_degree_ages r = maternal_second_degree_ages r'"
    unfolding maternal_second_degree_ages_def by (rule sort_ages_cong_mset) (simp add: e)
  have ps: "paternal_second_degree_ages r = paternal_second_degree_ages r'"
    unfolding paternal_second_degree_ages_def by (rule sort_ages_cong_mset) (simp add: e)
  have ma: "sort_ages (maternal_aunt_onset_ages r) = sort_ages (maternal_aunt_onset_ages r')"
    by (rule sort_ages_cong_mset) (simp add: e)
  have pa: "sort_ages (paternal_aunt_onset_ages r) = sort_ages (paternal_aunt_onset_ages r')"
    by (rule sort_ages_cong_mset) (simp add: e)
  show ?thesis
    unfolding same_youngest_def by (simp only: m f s ms ps ma pa simp_thms)
qed

lemma drop_invalid_same_youngest: "same_youngest (drop_invalid_ages r) r"
proof -
  let ?d = "drop_invalid_ages r"
  have f: "first_degree_ages ?d = first_degree_ages r"
    unfolding first_degree_ages_def
    by (rule sort_ages_cong_mset) (simp add: drop_invalid_ages_def multiset_eq_iff)
  have s: "second_degree_ages ?d = second_degree_ages r"
    unfolding second_degree_ages_def
    by (rule sort_ages_cong_mset) (simp add: drop_invalid_ages_def multiset_eq_iff)
  have ms: "maternal_second_degree_ages ?d = maternal_second_degree_ages r"
    unfolding maternal_second_degree_ages_def
    by (rule sort_ages_cong_mset) (simp add: drop_invalid_ages_def multiset_eq_iff)
  have ps: "paternal_second_degree_ages ?d = paternal_second_degree_ages r"
    unfolding paternal_second_degree_ages_def
    by (rule sort_ages_cong_mset) (simp add: drop_invalid_ages_def multiset_eq_iff)
  have ma: "sort_ages (maternal_aunt_onset_ages ?d) = sort_ages (maternal_aunt_onset_ages r)"
    by (rule sort_ages_cong_mset) (simp add: drop_invalid_ages_def multiset_eq_iff)
  have pa: "sort_ages (paternal_aunt_onset_ages ?d) = sort_ages (paternal_aunt_onset_ages r)"
    by (rule sort_ages_cong_mset) (simp add: drop_invalid_ages_def multiset_eq_iff)
  have m: "mother_onset_age ?d = mother_onset_age r"
    by (simp add: drop_invalid_ages_def)
  show ?thesis
    unfolding same_youngest_def by (simp only: m f s ms ps ma pa simp_thms)
qed

text \<open>
  Claim C6.  Listing the ages of any category in another order leaves the result of
  \<open>calculate_risk\<close> unchanged; more precisely the result depends on the lists only
  through the youngest age of each category (the two youngest for the two-relative
  tables), as \<open>same_youngest\<close> spells out.
\<close>

theorem permutation_invariance:
  "(permuted r r' \<longrightarrow> calculate_risk T patient_age r = calculate_risk T patient_age r') \<and>
   (same_youngest r r' \<longrightarrow> calculate_risk T patient_age r = calculate_risk T patient_age r')"
  using calculate_risk_same_youngest permuted_same_youngest by blast

text \<open>
  The filtering of the lists.  Ages outside 20..79 supplied in any of the eight
  list-valued categories are excluded before any computation: the result is that of the
  input with those ages removed.
\<close>

theorem out_of_range_list_ages_ignored:
  "calculate_risk T patient_age (drop_invalid_ages r) = calculate_risk T patient_age r"
  by (rule calculate_risk_same_youngest [OF drop_invalid_same_youngest])


theorem permutation_invariance_witness:
  "permuted
     (no_relatives\<lparr>maternal_aunt_onset_ages := [50, 30], paternal_aunt_onset_ages := [55]\<rparr>)
     (no_relatives\<lparr>maternal_aunt_onset_ages := [30, 50], paternal_aunt_onset_ages := [55]\<rparr>) \<and>
   same_youngest
     (no_relatives\<lparr>maternal_aunt_onset_ages := [50, 30], paternal_aunt_onset_ages := [55]\<rparr>)
     (no_relatives\<lparr>maternal_aunt_onset_ages := [30, 50, 70], paternal_aunt_onset_ages := [55]\<rparr>) \<and>
   calculate_risk sample_tables 60
     (no_relatives\<lparr>maternal_aunt_onset_ages := [50, 30], paternal_aunt_onset_ages := [55]\<rparr>)
   = calculate_risk sample_tables 60
     (no_relatives\<lparr>maternal_aunt_onset_ages := [30, 50], paternal_aunt_onset_ages := [55]\<rparr>) \<and>
   calculate_risk sample_tables 60
     (no_relatives\<lparr>maternal_aunt_onset_ages := [50, 30], paternal_aunt_onset_ages := [55]\<rparr>)
   = calculate_risk sample_tables 60
     (no_relatives\<lparr>maternal_aunt_onset_ages := [30, 50, 70], paternal_aunt_onset_ages := [55]\<rparr>)"
proof -
  let ?a = "no_relatives\<lparr>maternal_aunt_onset_ages := [50, 30], paternal_aunt_onset_ages := [55]\<rparr>"
  let ?b = "no_relatives\<lparr>maternal_aunt_onset_ages := [30, 50], paternal_aunt_onset_ages := [55]\<rparr>"
  let ?c = "no_relatives\<lparr>maternal_aunt_onset_ages := [30, 50, 70],
              paternal_aunt_onset_ages := [55]\<rparr>"
  have p: "permuted ?a ?b"
    by (simp add: permuted_def no_relatives_def)
  have y: "same_youngest ?a ?c"
    by (simp add: same_youngest_def first_degree_ages_def second_degree_ages_def
        maternal_second_degree_ages_def paternal_second_degree_ages_def sort_ages_def
        VALID_MAX_AGE_def VALID_MIN_AGE_def no_relatives_def)
  show ?thesis
    using permutation_invariance [of ?a ?b sample_tables 60]
      permutation_invariance [of ?a ?c sample_tables 60] p y
    by simp
qed

text \<open>
  Claim C7.  Ages outside 20..79 supplied for first- and second-degree relatives are to
  be excluded before any computation, so an age of 15 or 85 next to a valid age of 45
  must give the result of 45 alone.  The mother is a first-degree relative, and her
  out-of-range age is dropped from the first-degree list like any other; the
  mother-and-aunt step, which filters the aunts, passes \<^verbatim>\<open>mother_onset_age\<close> to
  \<^verbatim>\<open>_bin_age_to_index\<close> as supplied.  With a maternal aunt of 45, a mother's age of 85
  ends the call in \<^verbatim>\<open>IndexError\<close> and one of 15 selects the last column of the table
  (bin \<open>-1\<close>) and returns 0.144, where the aunt alone gives 0.055.
\<close>

theorem out_of_range_mother_is_binned:
  "calculate_risk sample_tables 50
     (no_relatives\<lparr>mother_onset_age := Some 85, maternal_aunt_onset_ages := [45]\<rparr>)
     = Inl IndexError \<and>
   calculate_risk sample_tables 50
     (no_relatives\<lparr>mother_onset_age := Some 15, maternal_aunt_onset_ages := [45]\<rparr>)
     = Inr (Some (144 / 1000)) \<and>
   calculate_risk sample_tables 50 (no_relatives\<lparr>maternal_aunt_onset_ages := [45]\<rparr>)
     = Inr (Some (55 / 1000))"
proof -
  have g1: "get_lifetime_risk (sample2 20) 50 (Some 2) None = Inr (55 / 1000)"
    using py_round3_quotient [of 4721 261] by (simp add: lookup_defs)
  have g2: "get_lifetime_risk (sample3 50) 50 (Some 6) (Some 2) = Inl IndexError"
    by (simp add: lookup_defs)
  have g3: "get_lifetime_risk (sample3 50) 50 (Some (- 1)) (Some 2) = Inr (144 / 1000)"
    using py_round3_quotient [of 8667 1247] by (simp add: lookup_defs)
  show ?thesis
    by (simp add: structure_defs sample_tables_simps g1 g2 g3)
qed

theorem out_of_range_list_ages_ignored_witness:
  "drop_invalid_ages
     (no_relatives\<lparr>full_sister_onset_ages := [15, 45],
                     maternal_grandmother_onset_ages := [85, 45]\<rparr>)
   = no_relatives\<lparr>full_sister_onset_ages := [45], maternal_grandmother_onset_ages := [45]\<rparr> \<and>
   calculate_risk sample_tables 50
     (no_relatives\<lparr>full_sister_onset_ages := [15, 45],
                     maternal_grandmother_onset_ages := [85, 45]\<rparr>)
   = calculate_risk sample_tables 50
     (no_relatives\<lparr>full_sister_onset_ages := [45], maternal_grandmother_onset_ages := [45]\<rparr>) \<and>
   calculate_risk sample_tables 50
     (no_relatives\<lparr>full_sister_onset_ages := [45], maternal_grandmother_onset_ages := [45]\<rparr>)
   = Inr (Some (89 / 1000))"
proof -
  let ?r = "no_relatives\<lparr>full_sister_onset_ages := [15, 45],
              maternal_grandmother_onset_ages := [85, 45]\<rparr>"
  let ?v = "no_relatives\<lparr>full_sister_onset_ages := [45],
              maternal_grandmother_onset_ages := [45]\<rparr>"
  have d: "drop_invalid_ages ?r = ?v"
    by (simp add: drop_invalid_ages_def in_valid_range_def VALID_MAX_AGE_def VALID_MIN_AGE_def
        no_relatives_def)
  have g1: "get_lifetime_risk (sample2 30) 50 (Some 2) None = Inr (89 / 1000)"
    using py_round3_quotient [of 2283 203] by (simp add: lookup_defs)
  have g2: "get_lifetime_risk (sample2 20) 50 (Some 2) None = Inr (55 / 1000)"
    using py_round3_quotient [of 4721 261] by (simp add: lookup_defs)
  have c: "calculate_risk sample_tables 50 ?v = Inr (Some (89 / 1000))"
    by (simp add: structure_defs sample_tables_simps g1 g2)
  show ?thesis
    using out_of_range_list_ages_ignored [of sample_tables 50 ?r] d c by simp
qed

subsection \<open>Adding a relative\<close>

text \<open>
  A relative added to an input makes every derived list equal to the old one or to the old
  one with the new age inserted, so its youngest (and second youngest) entry does not get
  older.  When the conditional risk of each table does not grow with a relative's bin,
  every lookup of the old input is matched by a lookup of the new one with at least its
  risk.
\<close>

lemma bin_in_range:
  assumes "in_valid_range x"
  shows "\<exists>k. bin_age_to_index x = Some k \<and> k \<in> {0..5}"
proof -
  from assms have x: "20 \<le> x" "x \<le> 79"
    by (simp_all add: in_valid_range_def VALID_MAX_AGE_def VALID_MIN_AGE_def)
  then have "0 \<le> (x - 20) div 10 \<and> (x - 20) div 10 \<le> 5" by presburger
  then show ?thesis using x by (simp add: bin_age_to_index_def)
qed

lemma bin_mono:
  assumes "in_valid_range x" and "in_valid_range y" and "x \<le> y"
    and "bin_age_to_index x = Some k" and "bin_age_to_index y = Some k'"
  shows "k \<le> k'"
proof -
  from assms(1,2) have "x \<noteq> 0" "y \<noteq> 0"
    by (simp_all add: in_valid_range_def VALID_MAX_AGE_def VALID_MIN_AGE_def)
  with assms(4,5) have "k = (x - 20) div 10" "k' = (y - 20) div 10"
    by (simp_all add: bin_age_to_index_def)
  then show ?thesis using assms(3) by (simp add: zdiv_mono1)
qed

lemma sort_ages_valid: "a \<in> set (sort_ages xs) \<Longrightarrow> in_valid_range a"
  by (simp add: sort_ages_in_valid_range)

lemma sort_ages_sorted: "sorted (sort_ages xs)"
  by (simp add: sort_ages_in_valid_range)

lemma sort_ages_add:
  assumes "in_valid_range x" and "mset ys = add_mset x (mset xs)"
  shows "sort_ages ys = insort x (sort_ages xs)"
proof -
  have "mset (insort x (sort (filter in_valid_range xs))) = mset (filter in_valid_range ys)"
    using assms by simp
  moreover have "sorted (insort x (sort (filter in_valid_range xs)))"
    by (simp add: sorted_insort)
  ultimately have "sort (filter in_valid_range ys) = insort x (sort (filter in_valid_range xs))"
    by (rule properties_for_sort)
  then show ?thesis by (simp add: sort_ages_in_valid_range)
qed

lemma insort_nonempty: "insort (x::int) xs \<noteq> []"
  by (cases xs) auto

lemma insort_nth0:
  fixes x :: int
  assumes "xs \<noteq> []"
  shows "insort x xs ! 0 \<le> xs ! 0"
  using assms by (cases xs) auto

lemma insort_nth0_new: "insort (x::int) xs ! 0 \<le> x"
  by (cases xs) auto

lemma insort_nth1:
  fixes x :: int
  assumes "sorted xs" and "1 < length xs"
  shows "insort x xs ! 1 \<le> xs ! 1"
proof -
  from assms(2) obtain y z zs where xs: "xs = y # z # zs"
    by (cases xs; cases "tl xs") auto
  with assms(1) have "y \<le> z" by simp
  then show ?thesis unfolding xs by auto
qed

lemma insort_length: "length (insort (x::int) xs) = Suc (length xs)"
  by simp

lemma set_insort_valid:
  assumes "in_valid_range x" and "\<forall>a \<in> set xs. in_valid_range a"
  shows "\<forall>a \<in> set (insort x xs). in_valid_range a"
  using assms by (simp add: set_insort_key)


lemma younger_refl: "\<forall>a \<in> set xs. in_valid_range a \<Longrightarrow> younger xs xs"
  by (simp add: younger_def)

lemma younger_insort:
  assumes "sorted xs" and "in_valid_range x" and "\<forall>a \<in> set xs. in_valid_range a"
  shows "younger (insort x xs) xs"
  unfolding younger_def
  using assms insort_nth0 [of xs x] insort_nth1 [OF assms(1), of x] insort_nonempty [of x xs]
  by (auto simp add: set_insort_key)

lemma younger_sort_ages:
  assumes "in_valid_range x" and "mset ys = mset xs \<or> mset ys = add_mset x (mset xs)"
  shows "younger (sort_ages ys) (sort_ages xs)"
proof -
  have v: "\<forall>a \<in> set (sort_ages xs). in_valid_range a"
    using sort_ages_valid by blast
  from assms(2) show ?thesis
  proof
    assume "mset ys = mset xs"
    then have "sort_ages ys = sort_ages xs" by (intro sort_ages_cong_mset) simp
    then show ?thesis using younger_refl [OF v] by simp
  next
    assume "mset ys = add_mset x (mset xs)"
    then have "sort_ages ys = insort x (sort_ages xs)" by (rule sort_ages_add [OF assms(1)])
    then show ?thesis using younger_insort [OF sort_ages_sorted assms(1) v] by simp
  qed
qed

lemma valid_nonzero: "in_valid_range x \<Longrightarrow> x \<noteq> 0"
  by (simp add: in_valid_range_def VALID_MAX_AGE_def VALID_MIN_AGE_def)

lemma falsy_mother_list: "\<not> truthy m \<Longrightarrow> mother_list m = []"
  by (cases m) auto

lemma younger_first_degree:
  assumes "in_valid_range x" and "can_add c r"
  shows "younger (first_degree_ages (add_relative c x r)) (first_degree_ages r)"
  unfolding first_degree_ages_def
  using assms valid_nonzero [OF assms(1)]
  by (intro younger_sort_ages [OF assms(1)]) (cases c; simp add: can_add_def falsy_mother_list)

lemma younger_second_degree:
  assumes "in_valid_range x"
  shows "younger (second_degree_ages (add_relative c x r)) (second_degree_ages r)"
  unfolding second_degree_ages_def
  using valid_nonzero [OF assms]
  by (intro younger_sort_ages [OF assms]) (cases c; simp)

lemma younger_maternal:
  assumes "in_valid_range x"
  shows "younger (maternal_second_degree_ages (add_relative c x r))
           (maternal_second_degree_ages r)"
  unfolding maternal_second_degree_ages_def
  using valid_nonzero [OF assms]
  by (intro younger_sort_ages [OF assms]) (cases c; simp)

lemma younger_paternal:
  assumes "in_valid_range x"
  shows "younger (paternal_second_degree_ages (add_relative c x r))
           (paternal_second_degree_ages r)"
  unfolding paternal_second_degree_ages_def
  using valid_nonzero [OF assms]
  by (intro younger_sort_ages [OF assms]) (cases c; simp)

lemma younger_maternal_aunts:
  assumes "in_valid_range x"
  shows "younger (sort_ages (maternal_aunt_onset_ages (add_relative c x r)))
           (sort_ages (maternal_aunt_onset_ages r))"
  by (intro younger_sort_ages [OF assms]) (cases c; simp)

lemma younger_paternal_aunts:
  assumes "in_valid_range x"
  shows "younger (sort_ages (paternal_aunt_onset_ages (add_relative c x r)))
           (sort_ages (paternal_aunt_onset_ages r))"
  by (intro younger_sort_ages [OF assms]) (cases c; simp)

lemma risk_le_Inr:
  assumes "risk_le p q"
  shows "\<exists>v w. p = Inr v \<and> q = Inr w \<and> v \<le> w"
proof (cases p)
  case (Inl e)
  then show ?thesis using assms by simp
next
  case pv: (Inr v)
  show ?thesis
  proof (cases q)
    case (Inl e)
    then show ?thesis using assms pv by simp
  next
    case (Inr w)
    then show ?thesis using assms pv by simp
  qed
qed

lemma risk_le_one:
  assumes "antitone1 t a" and "in_valid_range x" and "in_valid_range y" and "y \<le> x"
  shows "risk_le (lookup_risk a (t, bin_age_to_index x, None))
           (lookup_risk a (t, bin_age_to_index y, None))"
proof -
  from bin_in_range [OF assms(2)] obtain k where k: "bin_age_to_index x = Some k" "k \<in> {0..5}"
    by blast
  from bin_in_range [OF assms(3)] obtain k' where k': "bin_age_to_index y = Some k'" "k' \<in> {0..5}"
    by blast
  have "k' \<le> k" using bin_mono [OF assms(3) assms(2) assms(4)] k k' by simp
  then show ?thesis using assms(1) k k' unfolding antitone1_def by simp
qed

lemma risk_le_two:
  assumes "antitone2 t a"
    and "in_valid_range x" and "in_valid_range x'" and "x' \<le> x"
    and "in_valid_range y" and "in_valid_range y'" and "y' \<le> y"
  shows "risk_le (lookup_risk a (t, bin_age_to_index x, bin_age_to_index y))
           (lookup_risk a (t, bin_age_to_index x', bin_age_to_index y'))"
proof -
  from bin_in_range [OF assms(2)] obtain i where i: "bin_age_to_index x = Some i" "i \<in> {0..5}"
    by blast
  from bin_in_range [OF assms(3)] obtain i' where i': "bin_age_to_index x' = Some i'" "i' \<in> {0..5}"
    by blast
  from bin_in_range [OF assms(5)] obtain j where j: "bin_age_to_index y = Some j" "j \<in> {0..5}"
    by blast
  from bin_in_range [OF assms(6)] obtain j' where j': "bin_age_to_index y' = Some j'" "j' \<in> {0..5}"
    by blast
  have le: "i' \<le> i" "j' \<le> j"
    using bin_mono [OF assms(3) assms(2) assms(4)] bin_mono [OF assms(6) assms(5) assms(7)]
      i i' j j' by simp_all
  have "risk_le (get_lifetime_risk t a (Some i) (Some j)) (get_lifetime_risk t a (Some i') (Some j'))"
    using assms(1) i(2) i'(2) j(2) j'(2) le unfolding antitone2_def by blast
  then show ?thesis using i j i' j' by simp
qed

lemma younger_0:
  assumes "younger ys xs" and "xs \<noteq> []"
  shows "ys \<noteq> []" and "ys ! 0 \<le> xs ! 0" and "in_valid_range (xs ! 0)"
    and "in_valid_range (ys ! 0)"
proof -
  show a: "ys \<noteq> []" and "ys ! 0 \<le> xs ! 0" using assms by (simp_all add: younger_def)
  have "xs ! 0 \<in> set xs" using assms(2) by (intro nth_mem) simp
  then show "in_valid_range (xs ! 0)" using assms(1) by (simp add: younger_def)
  have "ys ! 0 \<in> set ys" using a by (intro nth_mem) simp
  then show "in_valid_range (ys ! 0)" using assms(1) by (simp add: younger_def)
qed

lemma younger_1:
  assumes "younger ys xs" and "1 < length xs"
  shows "1 < length ys" and "ys ! 1 \<le> xs ! 1" and "in_valid_range (xs ! 1)"
    and "in_valid_range (ys ! 1)"
proof -
  show a: "1 < length ys" and "ys ! 1 \<le> xs ! 1" using assms by (simp_all add: younger_def)
  have "xs ! 1 \<in> set xs" using assms(2) by (intro nth_mem)
  then show "in_valid_range (xs ! 1)" using assms(1) by (simp add: younger_def)
  have "ys ! 1 \<in> set ys" using a by (intro nth_mem)
  then show "in_valid_range (ys ! 1)" using assms(1) by (simp add: younger_def)
qed

lemma dominated_Nil: "dominated a [] ls"
  by (simp add: dominated_def)

lemma dominated_single:
  "risk_le (lookup_risk a l) (lookup_risk a l') \<Longrightarrow> dominated a [l] [l']"
  by (simp add: dominated_def)

lemma dominated_append:
  assumes "dominated a xs xs'" and "dominated a ys ys'"
  shows "dominated a (xs @ ys) (xs' @ ys')"
  using assms unfolding dominated_def by (metis Un_iff set_append)

lemma dominated_one:
  assumes "antitone1 t a" and "younger F' F"
  shows "dominated a (if F \<noteq> [] then [(t, bin_age_to_index (F ! 0), None)] else [])
           (if F' \<noteq> [] then [(t, bin_age_to_index (F' ! 0), None)] else [])"
proof (cases "F = []")
  case True
  then show ?thesis by (simp add: dominated_Nil)
next
  case False
  note y = younger_0 [OF assms(2) False]
  show ?thesis using False y(1) risk_le_one [OF assms(1) y(3) y(4) y(2)]
    by (simp add: dominated_single)
qed

lemma dominated_two:
  assumes "antitone2 t a" and "younger F' F"
  shows "dominated a
           (if length F > 1 then [(t, bin_age_to_index (F ! 0), bin_age_to_index (F ! 1))] else [])
           (if length F' > 1 then [(t, bin_age_to_index (F' ! 0), bin_age_to_index (F' ! 1))]
            else [])"
proof (cases "length F > 1")
  case False
  then show ?thesis by (simp add: dominated_Nil)
next
  case True
  then have ne: "F \<noteq> []" by auto
  note y0 = younger_0 [OF assms(2) ne]
  note y1 = younger_1 [OF assms(2) True]
  show ?thesis
    using True y1(1) risk_le_two [OF assms(1) y0(3) y0(4) y0(2) y1(3) y1(4) y1(2)]
    by (simp add: dominated_single)
qed

lemma dominated_opposite:
  assumes "antitone2 t a" and "younger M' M" and "younger P' P"
  shows "dominated a
           (if M \<noteq> [] \<and> P \<noteq> []
            then [(t, bin_age_to_index (M ! 0), bin_age_to_index (P ! 0))] else [])
           (if M' \<noteq> [] \<and> P' \<noteq> []
            then [(t, bin_age_to_index (M' ! 0), bin_age_to_index (P' ! 0))] else [])"
proof (cases "M \<noteq> [] \<and> P \<noteq> []")
  case False
  then show ?thesis by (auto simp add: dominated_Nil)
next
  case True
  then have m: "M \<noteq> []" and p: "P \<noteq> []" by simp_all
  note ym = younger_0 [OF assms(2) m]
  note yp = younger_0 [OF assms(3) p]
  show ?thesis
    using True ym(1) yp(1) risk_le_two [OF assms(1) ym(3) ym(4) ym(2) yp(3) yp(4) yp(2)]
    by (simp add: dominated_single)
qed

lemma dominated_aunt:
  assumes "antitone2 t a" and "in_valid_range m" and "younger A' A"
  shows "dominated a
           (if A \<noteq> [] then [(t, bin_age_to_index m, bin_age_to_index (A ! 0))] else [])
           (if A' \<noteq> [] then [(t, bin_age_to_index m, bin_age_to_index (A' ! 0))] else [])"
proof (cases "A = []")
  case True
  then show ?thesis by (simp add: dominated_Nil)
next
  case False
  note y = younger_0 [OF assms(3) False]
  have "m \<le> m" by simp
  note r = risk_le_two [OF assms(1) assms(2) assms(2) this y(3) y(4) y(2)]
  show ?thesis using False y(1) r by (simp add: dominated_single)
qed

lemma applicable_lookups_dominated:
  assumes T: "tables_antitone T a"
    and m: "truthy (mother_onset_age r) \<Longrightarrow>
              mother_onset_age r' = mother_onset_age r \<and> in_valid_range (the (mother_onset_age r))"
    and f: "younger (first_degree_ages r') (first_degree_ages r)"
    and s: "younger (second_degree_ages r') (second_degree_ages r)"
    and ma: "younger (maternal_second_degree_ages r') (maternal_second_degree_ages r)"
    and pa: "younger (paternal_second_degree_ages r') (paternal_second_degree_ages r)"
    and au: "younger (sort_ages (maternal_aunt_onset_ages r'))
               (sort_ages (maternal_aunt_onset_ages r))"
    and pu: "younger (sort_ages (paternal_aunt_onset_ages r'))
               (sort_ages (paternal_aunt_onset_ages r))"
  shows "dominated a (applicable_lookups T r) (applicable_lookups T r')"
proof -
  from T have t: "antitone1 (ONE_FIRST_DEG_TABLE T) a" "antitone1 (ONE_SECOND_DEG_TABLE T) a"
    "antitone2 (TWO_FIRST_DEG_TABLE T) a" "antitone2 (MOTHER_MATERNAL_AUNT T) a"
    "antitone2 (MOTHER_PATERNAL_AUNT T) a" "antitone2 (TWO_SEC_DEG_DIFF_SIDE_TABLE T) a"
    "antitone2 (TWO_SEC_DEG_SAME_SIDE_TABLE T) a"
    by (simp_all add: tables_antitone_def)
  have one: "dominated a
      (one_relative_lookups
         [(first_degree_ages r, ONE_FIRST_DEG_TABLE T),
          (second_degree_ages r, ONE_SECOND_DEG_TABLE T)])
      (one_relative_lookups
         [(first_degree_ages r', ONE_FIRST_DEG_TABLE T),
          (second_degree_ages r', ONE_SECOND_DEG_TABLE T)])"
    unfolding one_relative_lookups.simps append_Nil2
    by (intro dominated_append dominated_one t f s)
  have two: "dominated a
      (two_relatives_lookups
         [(first_degree_ages r, TWO_FIRST_DEG_TABLE T),
          (maternal_second_degree_ages r, TWO_SEC_DEG_SAME_SIDE_TABLE T),
          (paternal_second_degree_ages r, TWO_SEC_DEG_SAME_SIDE_TABLE T)])
      (two_relatives_lookups
         [(first_degree_ages r', TWO_FIRST_DEG_TABLE T),
          (maternal_second_degree_ages r', TWO_SEC_DEG_SAME_SIDE_TABLE T),
          (paternal_second_degree_ages r', TWO_SEC_DEG_SAME_SIDE_TABLE T)])"
    unfolding two_relatives_lookups.simps append_Nil2
    by (intro dominated_append dominated_two t f ma pa)
  have opp: "dominated a
      (if maternal_second_degree_ages r \<noteq> [] \<and> paternal_second_degree_ages r \<noteq> []
       then [(TWO_SEC_DEG_DIFF_SIDE_TABLE T,
              bin_age_to_index (maternal_second_degree_ages r ! 0),
              bin_age_to_index (paternal_second_degree_ages r ! 0))]
       else [])
      (if maternal_second_degree_ages r' \<noteq> [] \<and> paternal_second_degree_ages r' \<noteq> []
       then [(TWO_SEC_DEG_DIFF_SIDE_TABLE T,
              bin_age_to_index (maternal_second_degree_ages r' ! 0),
              bin_age_to_index (paternal_second_degree_ages r' ! 0))]
       else [])"
    by (intro dominated_opposite t ma pa)
  have aunt: "dominated a
      (if truthy (mother_onset_age r)
       then mother_aunt_lookups (the (mother_onset_age r))
              [(maternal_aunt_onset_ages r, MOTHER_MATERNAL_AUNT T),
               (paternal_aunt_onset_ages r, MOTHER_PATERNAL_AUNT T)]
       else [])
      (if truthy (mother_onset_age r')
       then mother_aunt_lookups (the (mother_onset_age r'))
              [(maternal_aunt_onset_ages r', MOTHER_MATERNAL_AUNT T),
               (paternal_aunt_onset_ages r', MOTHER_PATERNAL_AUNT T)]
       else [])"
  proof (cases "truthy (mother_onset_age r)")
    case False
    then show ?thesis by (simp add: dominated_Nil)
  next
    case True
    from m [OF True] have eq: "mother_onset_age r' = mother_onset_age r"
      and v: "in_valid_range (the (mother_onset_age r))" by simp_all
    have "dominated a
        (mother_aunt_lookups (the (mother_onset_age r))
           [(maternal_aunt_onset_ages r, MOTHER_MATERNAL_AUNT T),
            (paternal_aunt_onset_ages r, MOTHER_PATERNAL_AUNT T)])
        (mother_aunt_lookups (the (mother_onset_age r))
           [(maternal_aunt_onset_ages r', MOTHER_MATERNAL_AUNT T),
            (paternal_aunt_onset_ages r', MOTHER_PATERNAL_AUNT T)])"
      unfolding mother_aunt_lookups.simps append_Nil2
      by (intro dominated_append dominated_aunt t v au pu)
    then show ?thesis using True eq by simp
  qed
  show ?thesis unfolding applicable_lookups_def
    by (intro dominated_append one aunt two opp)
qed

lemma collect_defined:
  assumes "\<forall>x \<in> set xs. \<exists>v. x = Inr v"
  shows "\<exists>vs. collect xs = Inr vs \<and> map Inr vs = xs"
  using assms
proof (induction xs)
  case Nil
  show ?case by simp
next
  case (Cons x xs)
  from Cons.prems obtain v where x: "x = Inr v" by auto
  from Cons.prems have "\<forall>x \<in> set xs. \<exists>v. x = Inr v" by simp
  from Cons.IH [OF this] obtain vs where vs: "collect xs = Inr vs" "map Inr vs = xs" by blast
  have "collect (x # xs) = Inr (v # vs) \<and> map Inr (v # vs) = x # xs"
    using x vs by simp
  then show ?case by (rule exI)
qed

lemma dominated_defined:
  assumes "dominated a ls ls'"
  shows "\<forall>x \<in> set (map (lookup_risk a) ls). \<exists>v. x = Inr v"
proof
  fix x assume "x \<in> set (map (lookup_risk a) ls)"
  then obtain l where l: "l \<in> set ls" "x = lookup_risk a l" by auto
  from assms l(1) obtain l' where "risk_le (lookup_risk a l) (lookup_risk a l')"
    unfolding dominated_def by blast
  from risk_le_Inr [OF this] show "\<exists>v. x = Inr v" using l(2) by blast
qed

lemma Inr_mem_map:
  assumes "map Inr vs = xs" and "Inr w \<in> set xs"
  shows "w \<in> set vs"
proof -
  from assms have "Inr w \<in> Inr ` set vs" by auto
  then show ?thesis by (rule imageE) simp
qed

lemma run_lookups_dominated:
  assumes d: "dominated a ls ls'" and d': "dominated a ls' ls'"
  shows "\<exists>v v'. run_lookups a ls 0 = Inr v \<and> run_lookups a ls' 0 = Inr v' \<and> v \<le> v'"
proof -
  from collect_defined [OF dominated_defined [OF d]] obtain vs
    where vs: "collect (map (lookup_risk a) ls) = Inr vs" "map Inr vs = map (lookup_risk a) ls"
    by blast
  from collect_defined [OF dominated_defined [OF d']] obtain vs'
    where vs': "collect (map (lookup_risk a) ls') = Inr vs'"
      "map Inr vs' = map (lookup_risk a) ls'"
    by blast
  have r: "run_lookups a ls 0 = Inr (Max (insert 0 (set vs)))"
    by (simp add: run_lookups_collect vs(1) foldl_max_Max)
  have r': "run_lookups a ls' 0 = Inr (Max (insert 0 (set vs')))"
    by (simp add: run_lookups_collect vs'(1) foldl_max_Max)
  have dom: "\<exists>w \<in> set vs'. v \<le> w" if "v \<in> set vs" for v
  proof -
    have s: "set (map (lookup_risk a) ls) = Inr ` set vs"
      by (simp only: vs(2) [symmetric] set_map)
    have "Inr v \<in> set (map (lookup_risk a) ls)"
      unfolding s using that by (rule imageI)
    then have "Inr v \<in> lookup_risk a ` set ls" by (simp only: set_map)
    then obtain l where l: "l \<in> set ls" "lookup_risk a l = Inr v"
      by (elim imageE) simp
    from d l(1) obtain l' where l': "l' \<in> set ls'"
      "risk_le (lookup_risk a l) (lookup_risk a l')"
      unfolding dominated_def by blast
    from risk_le_Inr [OF l'(2)] l(2) obtain w where w: "lookup_risk a l' = Inr w" "v \<le> w"
      by auto
    have "lookup_risk a l' \<in> set (map (lookup_risk a) ls')" using l'(1) by simp
    then have "Inr w \<in> set (map (lookup_risk a) ls')" by (simp only: w(1))
    from Inr_mem_map [OF vs'(2) this] show ?thesis using w(2) by blast
  qed
  have "Max (insert 0 (set vs)) \<le> Max (insert 0 (set vs'))"
  proof (rule Max.boundedI)
    show "finite (insert 0 (set vs))" by simp
    show "insert 0 (set vs) \<noteq> {}" by simp
    fix v assume "v \<in> insert 0 (set vs)"
    then consider "v = 0" | "v \<in> set vs" by auto
    then show "v \<le> Max (insert 0 (set vs'))"
    proof cases
      case 1
      have "0 \<le> Max (insert 0 (set vs'))" by (rule Max_ge) simp_all
      then show ?thesis using 1 by simp
    next
      case 2
      from dom [OF this] obtain w where w: "w \<in> set vs'" "v \<le> w" by blast
      have "w \<le> Max (insert 0 (set vs'))" using w(1) by (intro Max_ge) simp_all
      then show ?thesis using w(2) by (rule order_trans [rotated])
    qed
  qed
  then show ?thesis using r r' by simp
qed

lemma younger_mother:
  assumes "mother_ok (mother_onset_age r)" and "in_valid_range x" and "can_add c r"
    and "truthy (mother_onset_age r)"
  shows "mother_onset_age (add_relative c x r) = mother_onset_age r \<and>
         in_valid_range (the (mother_onset_age r))"
proof -
  from assms(3) assms(4) have "c \<noteq> Mother" by (auto simp: can_add_def)
  then have "mother_onset_age (add_relative c x r) = mother_onset_age r" by (cases c) simp_all
  moreover have "in_valid_range (the (mother_onset_age r))"
    using assms(1) assms(4) by (cases "mother_onset_age r") auto
  ultimately show ?thesis by simp
qed

lemma mother_after_add:
  assumes "mother_ok (mother_onset_age r)" and "in_valid_range x"
    and "truthy (mother_onset_age (add_relative c x r))"
  shows "in_valid_range (the (mother_onset_age (add_relative c x r)))"
proof -
  have "mother_onset_age (add_relative c x r) = Some x \<or>
        mother_onset_age (add_relative c x r) = mother_onset_age r"
    by (cases c) simp_all
  then show ?thesis
  proof
    assume "mother_onset_age (add_relative c x r) = Some x"
    then show ?thesis using assms(2) by simp
  next
    assume e: "mother_onset_age (add_relative c x r) = mother_onset_age r"
    show ?thesis using assms(1) assms(3) unfolding e
      by (cases "mother_onset_age r") auto
  qed
qed

lemma round_half_even_mono:
  assumes "x \<le> y"
  shows "round_half_even x \<le> round_half_even y"
proof (cases "\<lfloor>x\<rfloor> = \<lfloor>y\<rfloor>")
  case True
  have "x - of_int \<lfloor>x\<rfloor> \<le> y - of_int \<lfloor>y\<rfloor>" using assms True by simp
  then show ?thesis using True by (simp add: round_half_even_def Let_def)
next
  case False
  have "\<lfloor>x\<rfloor> \<le> \<lfloor>y\<rfloor>" using assms by (rule floor_mono)
  then have lt: "\<lfloor>x\<rfloor> + 1 \<le> \<lfloor>y\<rfloor>" using False by simp
  have a: "round_half_even x \<le> \<lfloor>x\<rfloor> + 1" by (simp add: round_half_even_def Let_def)
  have b: "\<lfloor>y\<rfloor> \<le> round_half_even y" by (simp add: round_half_even_def Let_def)
  from a lt b show ?thesis by linarith
qed

lemma py_round_mono:
  assumes "x \<le> y"
  shows "py_round x 3 \<le> py_round y 3"
proof -
  have "x * 10 ^ 3 \<le> y * 10 ^ 3" using assms by simp
  then have "round_half_even (x * 10 ^ 3) \<le> round_half_even (y * 10 ^ 3)"
    by (rule round_half_even_mono)
  then have "(of_int (round_half_even (x * 10 ^ 3)) :: rat) \<le> of_int (round_half_even (y * 10 ^ 3))"
    by (simp only: of_int_le_iff)
  then show ?thesis unfolding py_round_def by (simp add: divide_right_mono)
qed

lemma sample_denominator:
  assumes "n \<le> 100"
  shows "31 * rat_of_nat n < 10000"
proof -
  have "rat_of_nat n \<le> 100" using assms by (metis of_nat_le_iff of_nat_numeral)
  then show ?thesis by simp
qed

lemma sample2_risk:
  assumes "0 \<le> i" and "i \<le> 5" and "b \<le> 100"
  shows "get_lifetime_risk (sample2 b) 50 (Some i) None =
     Inr (py_round (29 * rat_of_nat (b - nat i) / (10000 - 31 * rat_of_nat (b - nat i))) 3)"
proof -
  have "b - nat i \<le> 100" using assms(3) by simp
  from sample_denominator [OF this] have "31 * rat_of_nat (b - nat i) \<noteq> 10000" by simp
  then show ?thesis using assms(1) assms(2) by (simp add: lookup_defs)
qed

lemma sample3_risk:
  assumes "0 \<le> i" and "i \<le> 5" and "0 \<le> j" and "j \<le> 5" and "b \<le> 100"
  shows "get_lifetime_risk (sample3 b) 50 (Some i) (Some j) =
     Inr (py_round (29 * rat_of_nat (b - nat i - nat j) /
                    (10000 - 31 * rat_of_nat (b - nat i - nat j))) 3)"
proof -
  have "b - nat i - nat j \<le> 100" using assms(5) by simp
  from sample_denominator [OF this] have "31 * rat_of_nat (b - nat i - nat j) \<noteq> 10000"
    by simp
  then show ?thesis using assms(1) assms(2) assms(3) assms(4) by (simp add: lookup_defs)
qed

lemma sample_risk_mono:
  assumes "n \<le> n'" and "n' \<le> 100"
  shows "py_round (29 * rat_of_nat n / (10000 - 31 * rat_of_nat n)) 3
       \<le> py_round (29 * rat_of_nat n' / (10000 - 31 * rat_of_nat n')) 3"
proof (rule py_round_mono, rule frac_le)
  show "0 \<le> 29 * rat_of_nat n'" by simp
  show "29 * rat_of_nat n \<le> 29 * rat_of_nat n'" using assms(1) by simp
  show "0 < 10000 - 31 * rat_of_nat n'" using sample_denominator [OF assms(2)] by simp
  show "10000 - 31 * rat_of_nat n' \<le> 10000 - 31 * rat_of_nat n" using assms(1) by simp
qed

lemma sample2_antitone:
  assumes "b \<le> 100"
  shows "antitone1 (sample2 b) 50"
  unfolding antitone1_def
proof (intro ballI impI)
  fix i i' :: int
  assume "i \<in> {0..5}" and "i' \<in> {0..5}" and le: "i \<le> i'"
  then have r: "0 \<le> i" "i \<le> 5" "0 \<le> i'" "i' \<le> 5" by simp_all
  have "b - nat i' \<le> b - nat i" using le by simp
  moreover have "b - nat i \<le> 100" using assms by simp
  ultimately show "risk_le (get_lifetime_risk (sample2 b) 50 (Some i') None)
                    (get_lifetime_risk (sample2 b) 50 (Some i) None)"
    unfolding sample2_risk [OF r(1) r(2) assms] sample2_risk [OF r(3) r(4) assms] risk_le.simps
    by (rule sample_risk_mono)
qed

lemma sample3_antitone:
  assumes "b \<le> 100"
  shows "antitone2 (sample3 b) 50"
  unfolding antitone2_def
proof (intro ballI impI)
  fix i i' j j' :: int
  assume "i \<in> {0..5}" and "i' \<in> {0..5}" and "j \<in> {0..5}" and "j' \<in> {0..5}"
    and le: "i \<le> i'" "j \<le> j'"
  then have r: "0 \<le> i" "i \<le> 5" "0 \<le> i'" "i' \<le> 5" "0 \<le> j" "j \<le> 5" "0 \<le> j'" "j' \<le> 5"
    by simp_all
  have "b - nat i' - nat j' \<le> b - nat i - nat j" using le by simp
  moreover have "b - nat i - nat j \<le> 100" using assms by simp
  ultimately show "risk_le (get_lifetime_risk (sample3 b) 50 (Some i') (Some j'))
                    (get_lifetime_risk (sample3 b) 50 (Some i) (Some j))"
    unfolding sample3_risk [OF r(1) r(2) r(5) r(6) assms]
      sample3_risk [OF r(3) r(4) r(7) r(8) assms] risk_le.simps
    by (rule sample_risk_mono)
qed

lemma sample_tables_antitone: "tables_antitone sample_tables 50"
  unfolding tables_antitone_def sample_tables_simps
  by (intro conjI sample2_antitone sample3_antitone) simp_all

text \<open>
  Claim C5 says that adding one qualifying relative never lowers the risk.  The code
  takes the maximum over more lookups but also moves the lookups it had to a younger
  bin, so the claim rests on the tables, which the function does not inspect: on
  \<open>rising_tables\<close>, whose cells are probabilities growing with the onset age, a maternal
  aunt of 25 added to a maternal grandmother of 45 lowers the risk from 0.068 to 0.062.
  It also rests on the mother's age: with a mother of 85 and a maternal grandmother of 45
  the call returns 0.055, and adding a maternal aunt of 30 makes the mother-and-aunt step
  read column 6, which ends the call in \<^verbatim>\<open>IndexError\<close>.
\<close>

theorem added_aunt_counterexample:
  "calculate_risk sample_tables 50
     (no_relatives\<lparr>mother_onset_age := Some 85, maternal_grandmother_onset_ages := [45]\<rparr>)
     = Inr (Some (55 / 1000)) \<and>
   calculate_risk sample_tables 50
     (add_relative MaternalAunt 30
        (no_relatives\<lparr>mother_onset_age := Some 85, maternal_grandmother_onset_ages := [45]\<rparr>))
     = Inl IndexError \<and>
   calculate_risk rising_tables 50 (no_relatives\<lparr>maternal_grandmother_onset_ages := [45]\<rparr>)
     = Inr (Some (68 / 1000)) \<and>
   calculate_risk rising_tables 50
     (add_relative MaternalAunt 25 (no_relatives\<lparr>maternal_grandmother_onset_ages := [45]\<rparr>))
     = Inr (Some (62 / 1000)) \<and>
   (62 / 1000 :: rat) < 68 / 1000"
proof -
  have g1: "get_lifetime_risk (sample2 20) 50 (Some 2) None = Inr (55 / 1000)"
    using py_round3_quotient [of 4721 261] by (simp add: lookup_defs)
  have g2: "get_lifetime_risk (sample2 20) 50 (Some 1) None = Inr (59 / 1000)"
    using py_round3_quotient [of 9411 551] by (simp add: lookup_defs)
  have g3: "get_lifetime_risk (sample3 50) 50 (Some 6) (Some 1) = Inl IndexError"
    by (simp add: lookup_defs)
  have h1: "get_lifetime_risk (rising2 20) 50 (Some 2) None = Inr (68 / 1000)"
    using py_round3_quotient [of 4659 319] by (simp add: get_lifetime_risk_def
        lookup_claus_table_def rising2_def)
  have h2: "get_lifetime_risk (rising2 20) 50 (Some 0) None = Inr (62 / 1000)"
    using py_round3_quotient [of 469 29] by (simp add: get_lifetime_risk_def
        lookup_claus_table_def rising2_def)
  have h3: "get_lifetime_risk (rising3 5) 50 (Some 0) (Some 2) = Inr (21 / 1000)"
    using py_round3_quotient [of 9783 203] by (simp add: get_lifetime_risk_def
        lookup_claus_table_def rising3_def)
  have a: "calculate_risk sample_tables 50
     (no_relatives\<lparr>mother_onset_age := Some 85, maternal_grandmother_onset_ages := [45]\<rparr>)
     = Inr (Some (55 / 1000))"
    by (simp add: structure_defs sample_tables_simps g1)
  have b: "calculate_risk sample_tables 50
     (add_relative MaternalAunt 30
        (no_relatives\<lparr>mother_onset_age := Some 85, maternal_grandmother_onset_ages := [45]\<rparr>))
     = Inl IndexError"
    by (simp add: structure_defs sample_tables_simps g2 g3)
  have c: "calculate_risk rising_tables 50
     (no_relatives\<lparr>maternal_grandmother_onset_ages := [45]\<rparr>) = Inr (Some (68 / 1000))"
    by (simp add: structure_defs rising_tables_def h1)
  have d: "calculate_risk rising_tables 50
     (add_relative MaternalAunt 25 (no_relatives\<lparr>maternal_grandmother_onset_ages := [45]\<rparr>))
     = Inr (Some (62 / 1000))"
    by (simp add: structure_defs rising_tables_def h2 h3)
  show ?thesis using a b c d by simp
qed

text \<open>
  Claim C5, amended.  Let the conditional risk of every table, at the patient's age, be
  defined over the six onset bins and not grow with a relative's bin, and let the
  mother's age be absent, falsy or in 20..79.  Adding an onset age in 20..79 to one of
  the eight lists, or giving a mother's age in 20..79 where there was none, leaves a call
  that returns, before and after, and the result after is at least the result before
  ("no result" being below every risk).
\<close>

theorem adding_relative_monotone:
  assumes T: "tables_antitone T a"
    and m: "mother_ok (mother_onset_age r)"
    and x: "in_valid_range x"
    and c: "can_add c r"
  shows "result_le (calculate_risk T a r) (calculate_risk T a (add_relative c x r))"
proof -
  let ?r' = "add_relative c x r"
  have d: "dominated a (applicable_lookups T r) (applicable_lookups T ?r')"
    by (intro applicable_lookups_dominated [OF T] younger_mother [OF m x c]
        younger_first_degree [OF x c] younger_second_degree [OF x] younger_maternal [OF x]
        younger_paternal [OF x] younger_maternal_aunts [OF x] younger_paternal_aunts [OF x])
  have d': "dominated a (applicable_lookups T ?r') (applicable_lookups T ?r')"
  proof (rule applicable_lookups_dominated [OF T])
    assume "truthy (mother_onset_age ?r')"
    from mother_after_add [OF m x this]
    show "mother_onset_age ?r' = mother_onset_age ?r' \<and>
          in_valid_range (the (mother_onset_age ?r'))" by simp
  qed (simp_all add: younger_refl sort_ages_valid first_degree_ages_def second_degree_ages_def
        maternal_second_degree_ages_def paternal_second_degree_ages_def)
  from run_lookups_dominated [OF d d'] obtain v v'
    where "run_lookups a (applicable_lookups T r) 0 = Inr v"
      "run_lookups a (applicable_lookups T ?r') 0 = Inr v'" "v \<le> v'" by blast
  then show ?thesis by (simp add: calculate_risk_run)
qed

theorem adding_relative_monotone_witness:
  "calculate_risk sample_tables 50 (no_relatives\<lparr>mother_onset_age := Some 40\<rparr>)
     = Inr (Some (89 / 1000)) \<and>
   calculate_risk sample_tables 50
     (add_relative MaternalAunt 35 (no_relatives\<lparr>mother_onset_age := Some 40\<rparr>))
     = Inr (Some (160 / 1000)) \<and>
   result_le
     (calculate_risk sample_tables 50 (no_relatives\<lparr>mother_onset_age := Some 40\<rparr>))
     (calculate_risk sample_tables 50
        (add_relative MaternalAunt 35 (no_relatives\<lparr>mother_onset_age := Some 40\<rparr>)))"
proof -
  let ?r = "no_relatives\<lparr>mother_onset_age := Some 40\<rparr>"
  have g1: "get_lifetime_risk (sample2 30) 50 (Some 2) None = Inr (89 / 1000)"
    using py_round3_quotient [of 2283 203] by (simp add: lookup_defs)
  have g2: "get_lifetime_risk (sample2 20) 50 (Some 1) None = Inr (59 / 1000)"
    using py_round3_quotient [of 9411 551] by (simp add: lookup_defs)
  have g3: "get_lifetime_risk (sample3 50) 50 (Some 2) (Some 1) = Inr (160 / 1000)"
    using py_round3_quotient [of 8543 1363] by (simp add: lookup_defs)
  have a: "calculate_risk sample_tables 50 ?r = Inr (Some (89 / 1000))"
    by (simp add: structure_defs sample_tables_simps g1)
  have b: "calculate_risk sample_tables 50 (add_relative MaternalAunt 35 ?r)
     = Inr (Some (160 / 1000))"
    by (simp add: structure_defs sample_tables_simps g1 g2 g3)
  have m: "mother_ok (mother_onset_age ?r)"
    by (simp add: in_valid_range_def VALID_MAX_AGE_def VALID_MIN_AGE_def)
  have x: "in_valid_range 35"
    by (simp add: in_valid_range_def VALID_MAX_AGE_def VALID_MIN_AGE_def)
  have c: "can_add MaternalAunt ?r" by (simp add: can_add_def)
  show ?thesis
    using adding_relative_monotone [OF sample_tables_antitone m x c] a b by simp
qed

end
